theory Spec2Isabelle
  imports Complex_Main
begin

section \<open>Kinematics and the compressible neo-Hookean model\<close>

text \<open>
  The notebook builds the constitutive model as UFL expressions over the displacement
  \<open>u\<close> of a three-dimensional vector function space:
  \<^verbatim>\<open>
  d = len(u)
  I = ufl.variable(ufl.Identity(d))
  F = ufl.variable(I + ufl.grad(u))
  C = ufl.variable(F.T * F)
  Ic = ufl.variable(ufl.tr(C))
  J  = ufl.variable(ufl.det(F))
  psi = (mu / 2) * (Ic - 3) - mu * ufl.ln(J) + (lmbda / 2) * (ufl.ln(J))**2
  P = ufl.diff(psi, F)
  \<close>
  A rank-2 tensor at a quadrature point is a function from two indices (each below
  \<open>d\<close>) to a real number. The one-letter names of the notebook (\<open>d\<close>, \<open>I\<close>, \<open>F\<close>,
  \<open>C\<close>, \<open>J\<close>, \<open>P\<close>, \<open>E\<close>) carry a suffix here, since a one-letter constant would
  capture the variables of every statement.
\<close>

type_synonym tensor = "nat \<Rightarrow> nat \<Rightarrow> real"

definition d_dim :: nat where
  \<comment> \<open>\<open>d = len(u)\<close>: the mesh is a box in three dimensions.\<close>
  "d_dim = 3"

definition I_id :: tensor where
  \<comment> \<open>\<open>ufl.Identity(d)\<close>\<close>
  "I_id i j = (if i = j then 1 else 0)"

definition F_grad :: "tensor \<Rightarrow> tensor" where
  \<comment> \<open>\<open>F = I + ufl.grad(u)\<close>, as a function of the displacement gradient.\<close>
  "F_grad gradu i j = I_id i j + gradu i j"

definition C_green :: "tensor \<Rightarrow> tensor" where
  \<comment> \<open>\<open>C = F.T * F\<close>\<close>
  "C_green F i j = (\<Sum>k<d_dim. F k i * F k j)"

definition ufl_tr :: "tensor \<Rightarrow> real" where
  "ufl_tr A = (\<Sum>i<d_dim. A i i)"

definition ufl_det :: "tensor \<Rightarrow> real" where
  \<comment> \<open>The determinant of a 3 by 3 tensor, expanded along the first row.\<close>
  "ufl_det A =
     A 0 0 * (A 1 1 * A 2 2 - A 1 2 * A 2 1)
   + A 0 1 * (A 1 2 * A 2 0 - A 1 0 * A 2 2)
   + A 0 2 * (A 1 0 * A 2 1 - A 1 1 * A 2 0)"

definition Ic :: "tensor \<Rightarrow> real" where
  "Ic F = ufl_tr (C_green F)"

definition J_det :: "tensor \<Rightarrow> real" where
  "J_det F = ufl_det F"

definition E_young :: real where "E_young = 10000"
definition nu :: real where "nu = 3 / 10"

definition mu :: real where
  "mu = E_young / (2 * (1 + nu))"

definition lmbda :: real where
  "lmbda = E_young * nu / ((1 + nu) * (1 - 2 * nu))"

definition psi :: "real \<Rightarrow> real \<Rightarrow> tensor \<Rightarrow> real" where
  \<comment> \<open>The stored strain energy density, for the values \<open>m\<close> and \<open>l\<close> of the constants
      \<open>mu\<close> and \<open>lmbda\<close>. The expression carries no guard on \<open>J\<close>.\<close>
  "psi m l F = (m / 2) * (Ic F - 3) - m * ln (J_det F) + (l / 2) * (ln (J_det F))\<^sup>2"

definition set_entry :: "tensor \<Rightarrow> nat \<Rightarrow> nat \<Rightarrow> real \<Rightarrow> tensor" where
  \<comment> \<open>The tensor with its component \<open>(i, j)\<close> replaced.\<close>
  "set_entry F i j t = F(i := (F i)(j := t))"

definition ufl_diff :: "(tensor \<Rightarrow> real) \<Rightarrow> tensor \<Rightarrow> tensor" where
  \<comment> \<open>\<open>ufl.diff(f, F)\<close> for a scalar \<open>f\<close> and a tensor variable \<open>F\<close>: the tensor of the
      partial derivatives of \<open>f\<close> with respect to the components of \<open>F\<close>.\<close>
  "ufl_diff f F i j =
     (THE D. ((\<lambda>t. f (set_entry F i j t)) has_real_derivative D) (at (F i j)))"

definition P_stress :: "real \<Rightarrow> real \<Rightarrow> tensor \<Rightarrow> tensor" where
  \<comment> \<open>\<open>P = ufl.diff(psi, F)\<close>\<close>
  "P_stress m l F = ufl_diff (psi m l) F"

text \<open>
  The closed form of the stress in the specification uses the inverse transpose of
  \<open>F\<close>; it is the matrix of cofactors divided by the determinant.
\<close>

definition nxt :: "nat \<Rightarrow> nat" where
  \<comment> \<open>The cyclic successor of an index below 3.\<close>
  "nxt i = (if i = 0 then 1 else if i = 1 then 2 else 0)"

definition cofactor :: "tensor \<Rightarrow> tensor" where
  "cofactor A i j =
     A (nxt i) (nxt j) * A (nxt (nxt i)) (nxt (nxt j))
   - A (nxt i) (nxt (nxt j)) * A (nxt (nxt i)) (nxt j)"

definition inv_T :: "tensor \<Rightarrow> tensor" where
  "inv_T A i j = cofactor A i j / ufl_det A"

datatype failure = GeometricDegeneracy | AssertionError | RuntimeError
  \<comment> \<open>\<open>AssertionError\<close> is what a failed \<open>assert\<close> of the notebook raises and
      \<open>RuntimeError\<close> what the library's solver raises. \<open>GeometricDegeneracy\<close> is the
      failure the specification names for \<open>J \<le> 0\<close>; nothing in the notebook raises it.\<close>

text \<open>
  Evaluation at a quadrature point. The expressions above are handed to the form compiler
  as they are, and whatever evaluates them (the compiled kernel in double precision, an
  interpreter) brings its own numbers and operations. Nothing is assumed about these:
  a backend is any type of values with a constant for every real literal, the four
  operations, the power and the logarithm. The logarithm is the operation whose argument
  the claims are about; it may raise (\<open>Inl\<close>) or return a value, which need not be a
  finite number.
\<close>

record 'v backend =
  b_num :: "real \<Rightarrow> 'v"
  b_add :: "'v \<Rightarrow> 'v \<Rightarrow> 'v"
  b_sub :: "'v \<Rightarrow> 'v \<Rightarrow> 'v"
  b_mul :: "'v \<Rightarrow> 'v \<Rightarrow> 'v"
  b_div :: "'v \<Rightarrow> 'v \<Rightarrow> 'v"
  b_pow :: "'v \<Rightarrow> nat \<Rightarrow> 'v"
  b_ln :: "'v \<Rightarrow> failure + 'v"

definition kernel_F :: "'v backend \<Rightarrow> tensor \<Rightarrow> nat \<Rightarrow> nat \<Rightarrow> 'v" where
  \<comment> \<open>\<open>F = I + ufl.grad(u)\<close>\<close>
  "kernel_F k gradu i j = b_add k (b_num k (I_id i j)) (b_num k (gradu i j))"

definition kernel_C :: "'v backend \<Rightarrow> (nat \<Rightarrow> nat \<Rightarrow> 'v) \<Rightarrow> nat \<Rightarrow> nat \<Rightarrow> 'v" where
  \<comment> \<open>\<open>C = F.T * F\<close>\<close>
  "kernel_C k F i j =
     b_add k (b_add k (b_mul k (F 0 i) (F 0 j)) (b_mul k (F 1 i) (F 1 j))) (b_mul k (F 2 i) (F 2 j))"

definition kernel_tr :: "'v backend \<Rightarrow> (nat \<Rightarrow> nat \<Rightarrow> 'v) \<Rightarrow> 'v" where
  "kernel_tr k A = b_add k (b_add k (A 0 0) (A 1 1)) (A 2 2)"

definition kernel_det :: "'v backend \<Rightarrow> (nat \<Rightarrow> nat \<Rightarrow> 'v) \<Rightarrow> 'v" where
  "kernel_det k A =
     b_add k
       (b_add k
          (b_mul k (A 0 0) (b_sub k (b_mul k (A 1 1) (A 2 2)) (b_mul k (A 1 2) (A 2 1))))
          (b_mul k (A 0 1) (b_sub k (b_mul k (A 1 2) (A 2 0)) (b_mul k (A 1 0) (A 2 2)))))
       (b_mul k (A 0 2) (b_sub k (b_mul k (A 1 0) (A 2 1)) (b_mul k (A 1 1) (A 2 0))))"

definition kernel_Ic :: "'v backend \<Rightarrow> tensor \<Rightarrow> 'v" where
  \<comment> \<open>\<open>Ic = ufl.tr(C)\<close>\<close>
  "kernel_Ic k gradu = kernel_tr k (kernel_C k (kernel_F k gradu))"

definition kernel_J :: "'v backend \<Rightarrow> tensor \<Rightarrow> 'v" where
  \<comment> \<open>\<open>J = ufl.det(F)\<close>, as the backend computes it.\<close>
  "kernel_J k gradu = kernel_det k (kernel_F k gradu)"

definition kernel_psi :: "'v backend \<Rightarrow> real \<Rightarrow> real \<Rightarrow> tensor \<Rightarrow> failure + 'v" where
  \<comment> \<open>\<open>psi = (mu / 2) * (Ic - 3) - mu * ufl.ln(J) + (lmbda / 2) * (ufl.ln(J))**2\<close> at the
      displacement gradient \<open>gradu\<close>, for the values \<open>m\<close> and \<open>l\<close> of \<open>mu\<close> and
      \<open>lmbda\<close>. The two logarithms are taken where the expression has them; an error
      raised by either ends the evaluation. The expression has no other point at which
      the evaluation could end.\<close>
  "kernel_psi k m l gradu =
     (let ic = kernel_Ic k gradu; j = kernel_J k gradu in
      case b_ln k j of
        Inl e \<Rightarrow> Inl e
      | Inr ln1 \<Rightarrow>
          (case b_ln k j of
             Inl e \<Rightarrow> Inl e
           | Inr ln2 \<Rightarrow>
               Inr (b_add k
                      (b_sub k
                         (b_mul k (b_div k (b_num k m) (b_num k 2)) (b_sub k ic (b_num k 3)))
                         (b_mul k (b_num k m) ln1))
                      (b_mul k (b_div k (b_num k l) (b_num k 2)) (b_pow k ln2 2)))))"

definition lift2 :: "(real \<Rightarrow> real \<Rightarrow> real) \<Rightarrow> real option \<Rightarrow> real option \<Rightarrow> real option" where
  "lift2 f x y = (case x of None \<Rightarrow> None | Some a \<Rightarrow> (case y of None \<Rightarrow> None | Some b \<Rightarrow> Some (f a b)))"

definition exact_backend :: "real option backend" where
  \<comment> \<open>A backend for concrete inputs: exact arithmetic on the reals, with one further
      value \<open>None\<close> for a result that is not a finite number, and a logarithm that
      behaves as the one of the C library at zero and below: it raises nothing and its
      result is not a finite number. Rounding and overflow are left out; the general
      statements below are about every backend.\<close>
  "exact_backend =
     \<lparr>b_num = Some, b_add = lift2 (+), b_sub = lift2 (-), b_mul = lift2 (*), b_div = lift2 (/),
      b_pow = (\<lambda>x n. map_option (\<lambda>a. a ^ n) x),
      b_ln = (\<lambda>x. Inr (case x of None \<Rightarrow> None | Some a \<Rightarrow> if 0 < a then Some (ln a) else None))\<rparr>"

definition zero_grad :: tensor where
  \<comment> \<open>The displacement gradient of a rigid translation.\<close>
  "zero_grad i j = 0"

definition stretch_grad :: tensor where
  \<comment> \<open>A displacement gradient that doubles lengths along the first axis.\<close>
  "stretch_grad i j = (if i = 0 \<and> j = 0 then 1 else 0)"


section \<open>Boundary facets and their markers\<close>

text \<open>
  \<^verbatim>\<open>
  L = 20.0
  def left(x):  return np.isclose(x[0], 0)
  def right(x): return np.isclose(x[0], L)
  left_facets = dolfinx.mesh.locate_entities_boundary(mesh, mesh.topology.dim - 1, left)
  right_facets = dolfinx.mesh.locate_entities_boundary(mesh, mesh.topology.dim - 1, right)
  marked_facets = np.hstack([left_facets, right_facets])
  marked_values = np.hstack([np.full(len(left_facets), 1, dtype=np.int32),
                             np.full(len(right_facets), 2, dtype=np.int32)])
  sorted_facets = np.argsort(marked_facets)
  facet_tag = dolfinx.MeshTags(mesh, mesh.topology.dim-1, marked_facets[sorted_facets],
                               marked_values[sorted_facets])
  \<close>
  The mesh comes from the mesh generator; what the marking reads of it is, for every
  facet, whether it lies on the boundary and the reference coordinates of its vertices.
  A facet's index is its position in the list.
\<close>

type_synonym point = "real \<times> real \<times> real"

record facet =
  on_boundary :: bool
  vertices :: "point list"

type_synonym mesh = "facet list"

definition L_beam :: real where
  "L_beam = 20"

definition np_isclose :: "real \<Rightarrow> real \<Rightarrow> bool" where
  \<comment> \<open>\<open>np.isclose(a, b)\<close> with numpy's default tolerances \<open>rtol = 1e-05\<close> and
      \<open>atol = 1e-08\<close>.\<close>
  "np_isclose a b \<longleftrightarrow> \<bar>a - b\<bar> \<le> 1 / 10 ^ 8 + (1 / 10 ^ 5) * \<bar>b\<bar>"

definition left :: "point \<Rightarrow> bool" where
  "left x = np_isclose (fst x) 0"

definition right :: "point \<Rightarrow> bool" where
  "right x = np_isclose (fst x) L_beam"

definition locate_entities_boundary :: "mesh \<Rightarrow> (point \<Rightarrow> bool) \<Rightarrow> nat list" where
  \<comment> \<open>Modelled from the spec: the boundary marker service of the mesh library is not part
      of the notebook. Given a predicate over reference coordinates it returns the boundary
      facets that satisfy it, a facet satisfying it when all of its vertices do; the
      indices come in increasing order.\<close>
  "locate_entities_boundary msh marker =
     filter (\<lambda>i. on_boundary (msh ! i) \<and> list_all marker (vertices (msh ! i))) [0..<length msh]"

definition np_argsort :: "nat list \<Rightarrow> nat list" where
  \<comment> \<open>\<open>np.argsort(a)\<close>: the positions of \<open>a\<close>, ordered by the entries they hold.\<close>
  "np_argsort a = sort_key (\<lambda>i. a ! i) [0..<length a]"

definition take_at :: "'a list \<Rightarrow> nat list \<Rightarrow> 'a list" where
  \<comment> \<open>\<open>a[idx]\<close> for an index array \<open>idx\<close>.\<close>
  "take_at a idx = map (\<lambda>i. a ! i) idx"

record MeshTags =
  indices :: "nat list"
  tag_values :: "nat list"

definition left_facets :: "mesh \<Rightarrow> nat list" where
  "left_facets msh = locate_entities_boundary msh left"

definition right_facets :: "mesh \<Rightarrow> nat list" where
  "right_facets msh = locate_entities_boundary msh right"

definition marked_facets :: "mesh \<Rightarrow> nat list" where
  "marked_facets msh = left_facets msh @ right_facets msh"

definition marked_values :: "mesh \<Rightarrow> nat list" where
  "marked_values msh =
     replicate (length (left_facets msh)) 1 @ replicate (length (right_facets msh)) 2"

definition sorted_facets :: "mesh \<Rightarrow> nat list" where
  "sorted_facets msh = np_argsort (marked_facets msh)"

definition facet_tag :: "mesh \<Rightarrow> MeshTags" where
  "facet_tag msh =
     \<lparr>indices = take_at (marked_facets msh) (sorted_facets msh),
      tag_values = take_at (marked_values msh) (sorted_facets msh)\<rparr>"

definition tagged :: "MeshTags \<Rightarrow> nat \<Rightarrow> nat list" where
  \<comment> \<open>\<open>tags.indices[tags.values == k]\<close>: the facets that carry the marker \<open>k\<close>.\<close>
  "tagged tags k = map fst (filter (\<lambda>(f, v). v = k) (zip (indices tags) (tag_values tags)))"

text \<open>
  The variational form, with its measures:
  \<^verbatim>\<open>
  ds = ufl.Measure('ds', subdomain_data=facet_tag, metadata=metadata)
  dx = ufl.Measure("dx", metadata=metadata)
  F = ufl.inner(ufl.grad(v), P)*dx - ufl.inner(v, B)*dx - ufl.inner(v, T)*ds(2)
  \<close>
  A form is a signed sum of integrals, each an integrand over a measure. The measure
  \<open>dx\<close> ranges over the cells, \<open>ds(k)\<close> over the exterior facets that \<open>facet_tag\<close>
  marks with \<open>k\<close>.
\<close>

datatype integrand = Stress_term | Body_force_term | Traction_term

datatype measure = Dx | Ds nat

type_synonym form = "(real \<times> integrand \<times> measure) list"

definition F_form :: form where
  "F_form = [(1, Stress_term, Dx), (- 1, Body_force_term, Dx), (- 1, Traction_term, Ds 2)]"

fun facets_of_measure :: "MeshTags \<Rightarrow> measure \<Rightarrow> nat list" where
  "facets_of_measure tags Dx = []"
| "facets_of_measure tags (Ds k) = tagged tags k"

definition integration_facets :: "MeshTags \<Rightarrow> form \<Rightarrow> integrand \<Rightarrow> nat list" where
  \<comment> \<open>The facets over which the terms of a form with a given integrand are integrated.\<close>
  "integration_facets tags a g =
     concat (map (\<lambda>(c, g', m). if g' = g then facets_of_measure tags m else []) a)"

section \<open>Dirichlet conditions and the assembly of residual and Jacobian\<close>

text \<open>
  \<^verbatim>\<open>
  u_bc = dolfinx.Function(V)
  with u_bc.vector.localForm() as loc:
      loc.set(0)
  left_dofs = dolfinx.fem.locate_dofs_topological(V, facet_tag.dim,
                                                  facet_tag.indices[facet_tag.values==1])
  bcs = [dolfinx.DirichletBC(u_bc, left_dofs)]
  \<close>
  A vector over the degrees of freedom is a list of reals, a matrix a list of rows. A
  Dirichlet condition holds the degree-of-freedom vector of its value function and the
  indices it constrains.
\<close>

type_synonym vec = "real list"
type_synonym mat = "real list list"

record DirichletBC =
  bc_values :: vec
  bc_dofs :: "nat list"

definition vec_set :: "vec \<Rightarrow> real \<Rightarrow> vec" where
  \<comment> \<open>\<open>v.set(c)\<close>: every entry becomes \<open>c\<close>; the size stays.\<close>
  "vec_set v c = replicate (length v) c"

definition locate_dofs_topological :: "(nat \<Rightarrow> nat list) \<Rightarrow> nat list \<Rightarrow> nat list" where
  \<comment> \<open>The degrees of freedom of the function space that lie on the given facets;
      \<open>facet_dofs\<close> is the degree-of-freedom map of the function space, restricted to
      facets.\<close>
  "locate_dofs_topological facet_dofs fs = remdups (concat (map facet_dofs fs))"

definition u_bc :: "nat \<Rightarrow> vec" where
  \<comment> \<open>The value function of the condition, over \<open>n\<close> degrees of freedom, after
      \<open>loc.set(0)\<close>.\<close>
  "u_bc n = vec_set (replicate n 0) 0"

definition left_dofs :: "(nat \<Rightarrow> nat list) \<Rightarrow> mesh \<Rightarrow> nat list" where
  "left_dofs facet_dofs msh = locate_dofs_topological facet_dofs (tagged (facet_tag msh) 1)"

definition bcs_of :: "vec \<Rightarrow> nat list \<Rightarrow> DirichletBC list" where
  \<comment> \<open>\<open>bcs = [dolfinx.DirichletBC(u_bc, left_dofs)]\<close>; the condition refers to the
      function \<open>u_bc\<close>, so it prescribes whatever that function holds.\<close>
  "bcs_of ubc dofs = [\<lparr>bc_values = ubc, bc_dofs = dofs\<rparr>]"

fun bc_value :: "DirichletBC list \<Rightarrow> nat \<Rightarrow> real option" where
  \<comment> \<open>The value prescribed at a degree of freedom by a list of conditions, if any; where
      several conditions constrain it, the last one in the list decides.\<close>
  "bc_value [] k = None"
| "bc_value (bc # bcs) k =
     (case bc_value bcs k of
        Some g \<Rightarrow> Some g
      | None \<Rightarrow> if k \<in> set (bc_dofs bc) then Some (bc_values bc ! k) else None)"

text \<open>
  The class of the notebook that hands residual and Jacobian to the Newton solver:
  \<^verbatim>\<open>
  class NonlinearPDEProblem:
      def __init__(self, F, u, bcs):
          V = u.function_space
          du = ufl.TrialFunction(V)
          self.L = F
          self.a = ufl.derivative(F, u, du)
          self.bcs = bcs
          self.matrix = dolfinx.fem.create_matrix(self.a)
          self.vector = dolfinx.fem.create_vector(self.L)

      def F(self, x, b):
          with b.localForm() as b_local:
              b_local.set(0.0)
          dolfinx.fem.assemble_vector(b, self.L)
          dolfinx.fem.apply_lifting(b, [self.a], [self.bcs], [x], -1.0)
          b.ghostUpdate(addv=PETSc.InsertMode.ADD, mode=PETSc.ScatterMode.REVERSE)
          dolfinx.fem.set_bc(b, self.bcs, x, -1.0)

      def J(self, x, A):
          A.zeroEntries()
          dolfinx.fem.assemble_matrix(A, self.a, self.bcs)
          A.assemble()
  \<close>
  The compiled forms are taken as they come from the form compiler: \<open>L_form p x\<close> is the
  vector of the element contributions of the residual form at the displacement \<open>x\<close>
  (the solver passes the vector of \<open>u\<close> itself as \<open>x\<close>), \<open>a_form p x\<close> the matrix of
  the element contributions of its derivative. Nothing is assumed about either. The
  buffers \<open>b\<close> and \<open>A\<close> are passed in and returned updated.
\<close>

record NonlinearPDEProblem =
  L_form :: "vec \<Rightarrow> vec"
  a_form :: "vec \<Rightarrow> mat"
  bcs :: "DirichletBC list"

definition assemble_vector :: "vec \<Rightarrow> vec \<Rightarrow> vec" where
  \<comment> \<open>Modelled from the spec: the assembler of the finite-element library is not part of
      the notebook. It scatter-adds the element contributions \<open>c\<close> into the vector \<open>b\<close>,
      which it does not zero first.\<close>
  "assemble_vector b c = map (\<lambda>i. b ! i + c ! i) [0..<length b]"

definition lifting_row :: "real list \<Rightarrow> DirichletBC list \<Rightarrow> vec \<Rightarrow> real" where
  \<comment> \<open>One row of \<open>A (g - x0)\<close>, summed over the prescribed columns.\<close>
  "lifting_row row bs x0 =
     (\<Sum>j\<leftarrow>[0..<length row]. case bc_value bs j of None \<Rightarrow> 0 | Some g \<Rightarrow> row ! j * (g - x0 ! j))"

definition apply_lifting :: "vec \<Rightarrow> mat \<Rightarrow> DirichletBC list \<Rightarrow> vec \<Rightarrow> real \<Rightarrow> vec" where
  \<comment> \<open>Modelled from the spec: boundary lifting of the finite-element library, for one
      block. It changes \<open>b\<close> to \<open>b - scale * A (g - x0)\<close>, with \<open>A\<close> the matrix of the
      form \<open>a\<close> and \<open>g - x0\<close> taken at the prescribed degrees of freedom only.\<close>
  "apply_lifting b A bs x0 scale =
     map (\<lambda>i. b ! i - scale * lifting_row (A ! i) bs x0) [0..<length b]"

definition ghostUpdate :: "vec \<Rightarrow> vec" where
  \<comment> \<open>On one process there are no ghost entries to accumulate.\<close>
  "ghostUpdate b = b"

definition set_bc_one :: "DirichletBC \<Rightarrow> vec \<Rightarrow> real \<Rightarrow> vec \<Rightarrow> vec" where
  "set_bc_one bc x0 scale b =
     fold (\<lambda>k b. b[k := scale * (bc_values bc ! k - x0 ! k)]) (bc_dofs bc) b"

definition set_bc :: "vec \<Rightarrow> DirichletBC list \<Rightarrow> vec \<Rightarrow> real \<Rightarrow> vec" where
  \<comment> \<open>Modelled from the spec: the library routine that overwrites the constrained rows:
      for every condition in turn and every degree of freedom \<open>k\<close> it constrains,
      \<open>b[k] = scale * (g[k] - x0[k])\<close>.\<close>
  "set_bc b bs x0 scale = fold (\<lambda>bc b. set_bc_one bc x0 scale b) bs b"

definition F_residual :: "NonlinearPDEProblem \<Rightarrow> vec \<Rightarrow> vec \<Rightarrow> vec" where
  \<comment> \<open>\<open>NonlinearPDEProblem.F(self, x, b)\<close>; the result is the new content of \<open>b\<close>.\<close>
  "F_residual p x b =
     (let b1 = vec_set b 0;
          b2 = assemble_vector b1 (L_form p x);
          b3 = apply_lifting b2 (a_form p x) (bcs p) x (- 1);
          b4 = ghostUpdate b3
      in set_bc b4 (bcs p) x (- 1))"

definition zeroEntries :: "mat \<Rightarrow> mat" where
  "zeroEntries A = map (map (\<lambda>_. 0)) A"

definition assemble_matrix :: "mat \<Rightarrow> mat \<Rightarrow> DirichletBC list \<Rightarrow> mat" where
  \<comment> \<open>Modelled from the spec: matrix assembly of the finite-element library with
      Dirichlet conditions. The element contributions \<open>C\<close> are added into \<open>A\<close>, except in
      the rows of prescribed degrees of freedom, which receive nothing; the diagonal
      entry of each such row is then set to 1.\<close>
  "assemble_matrix A C bs =
     map (\<lambda>i. map (\<lambda>j. case bc_value bs i of
                          None \<Rightarrow> A ! i ! j + C ! i ! j
                        | Some g \<Rightarrow> if j = i then 1 else A ! i ! j)
                 [0..<length (A ! i)])
         [0..<length A]"

definition mat_assemble :: "mat \<Rightarrow> mat" where
  \<comment> \<open>\<open>A.assemble()\<close> finalises the matrix; the entries stay.\<close>
  "mat_assemble A = A"

definition J_jacobian :: "NonlinearPDEProblem \<Rightarrow> vec \<Rightarrow> mat \<Rightarrow> mat" where
  \<comment> \<open>\<open>NonlinearPDEProblem.J(self, x, A)\<close>; the result is the new content of \<open>A\<close>.\<close>
  "J_jacobian p x A =
     (let A1 = zeroEntries A;
          A2 = assemble_matrix A1 (a_form p x) (bcs p)
      in mat_assemble A2)"

definition mat_vec :: "mat \<Rightarrow> vec \<Rightarrow> vec" where
  \<comment> \<open>The product of a matrix with a vector.\<close>
  "mat_vec A v = map (\<lambda>row. \<Sum>j\<leftarrow>[0..<length row]. row ! j * v ! j) A"

section \<open>The Newton solver and the load steps\<close>

text \<open>
  \<^verbatim>\<open>
  B = dolfinx.Constant(mesh, (0, 0, 0))
  T = dolfinx.Constant(mesh, (0, 0, 0))
  u = dolfinx.Function(V)
  ...
  tval0 = -1.5
  for n in range(1, 10):
      print("Step:", n)
      T.value[2] = n * tval0
      num_its, converged = solver.solve(u.vector)
      assert(converged)
  \<close>
  The objects the loop can reach are the traction constant \<open>T\<close>, the displacement \<open>u\<close>
  and the boundary value function \<open>u_bc\<close>; the forms and the boundary conditions refer
  to them, so the solver reads their current content at every call. The solver is the
  library's; here it is any function from its own state (the buffers it keeps between
  calls) and these objects to either a raised error or the triple of the iteration
  count, the convergence flag and the new content of \<open>u\<close>, with its new state.
  Every call of the solver is recorded, with the step number that is printed before it.
\<close>

record globals =
  T_value :: "real list"
  u_vector :: vec
  u_bc_vector :: vec

type_synonym 's solver = "'s \<Rightarrow> globals \<Rightarrow> failure + nat \<times> bool \<times> vec \<times> 's"

record 's call =
  c_step :: nat
  c_globals :: globals
  c_state :: 's
  c_result :: "failure + nat \<times> bool \<times> vec \<times> 's"

definition tval0 :: real where
  "tval0 = - (3 / 2)"

definition initial_globals :: "nat \<Rightarrow> globals" where
  \<comment> \<open>Before the loop, over \<open>n\<close> degrees of freedom: \<open>T\<close> is \<open>(0, 0, 0)\<close>, a new
      \<open>Function\<close> holds zeros, and \<open>u_bc\<close> has been set to zero.\<close>
  "initial_globals n = \<lparr>T_value = [0, 0, 0], u_vector = replicate n 0, u_bc_vector = u_bc n\<rparr>"

fun load_steps :: "'s solver \<Rightarrow> nat list \<Rightarrow> globals \<Rightarrow> 's \<Rightarrow> 's call list \<times> (nat \<times> failure + globals)" where
  \<comment> \<open>The loop over the step numbers. The result is the record of the solver calls and
      either the step at which the run aborted, with the error, or the final objects.\<close>
  "load_steps solve [] g st = ([], Inr g)"
| "load_steps solve (n # ns) g st =
     (let g1 = g\<lparr>T_value := (T_value g)[2 := real n * tval0]\<rparr>;
          r = solve st g1;
          c = \<lparr>c_step = n, c_globals = g1, c_state = st, c_result = r\<rparr>
      in case r of
           Inl e \<Rightarrow> ([c], Inl (n, e))
         | Inr (num_its, converged, u', st') \<Rightarrow>
             if converged
             then (let (cs, out) = load_steps solve ns (g1\<lparr>u_vector := u'\<rparr>) st' in (c # cs, out))
             else ([c], Inl (n, AssertionError)))"

definition load_stepping :: "'s solver \<Rightarrow> nat \<Rightarrow> 's \<Rightarrow> 's call list \<times> (nat \<times> failure + globals)" where
  \<comment> \<open>\<open>for n in range(1, 10)\<close>, from the initial objects.\<close>
  "load_stepping solve n st = load_steps solve [1..<10] (initial_globals n) st"

fun follows :: "'s solver \<Rightarrow> vec \<Rightarrow> 's \<Rightarrow> 's call list \<Rightarrow> bool" where
  \<comment> \<open>A record of calls is a chain from the displacement \<open>u\<close> and the solver state
      \<open>st\<close>: each call starts from the displacement and the state the converged call
      before it left, and a call that did not converge is the last one.\<close>
  "follows solve u st [] = True"
| "follows solve u st (c # cs) =
     (u_vector (c_globals c) = u \<and> c_state c = st \<and> c_result c = solve st (c_globals c)
      \<and> (case c_result c of
            Inr (num_its, True, u', st') \<Rightarrow> follows solve u' st' cs
          | _ \<Rightarrow> cs = []))"

text \<open>
  The solver of the notebook, with the options it sets:
  \<^verbatim>\<open>
  problem = NonlinearPDEProblem(F, u, bcs)
  solver = dolfinx.cpp.nls.NewtonSolver(MPI.COMM_WORLD)
  solver.atol = 1e-8
  solver.rtol = 1e-6
  solver.convergence_criterion = "incremental"
  solver.setF(problem.F, problem.vector)
  solver.setJ(problem.J, problem.matrix)
  solver.set_form(problem.form)
  \<close>
\<close>

record NewtonSolver =
  atol :: real
  rtol :: real
  convergence_criterion :: string
  max_it :: nat

definition solver_options :: "nat \<Rightarrow> NewtonSolver" where
  \<comment> \<open>The options the notebook sets; the iteration limit is left at the library's
      default, taken as \<open>m\<close>.\<close>
  "solver_options m =
     \<lparr>atol = 1 / 10 ^ 8, rtol = 1 / 10 ^ 6, convergence_criterion = ''incremental'', max_it = m\<rparr>"

record library =
  linear_solve :: "mat \<Rightarrow> vec \<Rightarrow> vec option"
  converged_test :: "NewtonSolver \<Rightarrow> vec \<Rightarrow> vec \<Rightarrow> vec \<Rightarrow> bool"

fun newton_iterate ::
  "library \<Rightarrow> NewtonSolver \<Rightarrow> NonlinearPDEProblem \<Rightarrow> nat \<Rightarrow> nat \<Rightarrow> vec \<Rightarrow> vec \<Rightarrow> mat
     \<Rightarrow> failure + nat \<times> bool \<times> vec \<times> (vec \<times> mat)" where
  \<comment> \<open>Modelled from the spec: the iteration of the library's Newton solver is not part of
      the notebook. In each iteration it asks for the residual \<open>R\<close> and the Jacobian at
      the current \<open>u\<close>, has \<open>J \<delta> = - R\<close> solved by the linear solver, updates
      \<open>u \<leftarrow> u + \<delta>\<close> and evaluates the convergence criterion. It ends converged when the
      criterion holds, diverged when the iteration limit is reached, and failed when the
      linear solver gives no correction. The linear solver and the criterion (a test on
      \<open>\<delta>\<close>, \<open>u\<close> and \<open>R\<close> under the options) are left open. The first number counts
      the iterations still allowed, the second the iterations done.\<close>
  "newton_iterate lib s p 0 its x b A = Inr (its, False, x, (b, A))"
| "newton_iterate lib s p (Suc fuel) its x b A =
     (let R = F_residual p x b;
          Jm = J_jacobian p x A
      in case linear_solve lib Jm (map uminus R) of
           None \<Rightarrow> Inl RuntimeError
         | Some dx \<Rightarrow>
             (let x' = map (\<lambda>i. x ! i + dx ! i) [0..<length x]
              in if converged_test lib s dx x' R then Inr (Suc its, True, x', (R, Jm))
                 else newton_iterate lib s p fuel (Suc its) x' R Jm))"

record forms =
  residual_form :: "real list \<Rightarrow> vec \<Rightarrow> vec"
  jacobian_form :: "real list \<Rightarrow> vec \<Rightarrow> mat"

definition problem_of :: "forms \<Rightarrow> nat list \<Rightarrow> globals \<Rightarrow> NonlinearPDEProblem" where
  \<comment> \<open>\<open>problem = NonlinearPDEProblem(F, u, bcs)\<close>, read at the current content of \<open>T\<close>
      and \<open>u_bc\<close>: the compiled forms depend on the traction, the condition on the
      boundary value function; \<open>dofs\<close> are the constrained degrees of freedom.\<close>
  "problem_of fs dofs g =
     \<lparr>L_form = residual_form fs (T_value g), a_form = jacobian_form fs (T_value g),
      bcs = bcs_of (u_bc_vector g) dofs\<rparr>"

definition newton_solve :: "library \<Rightarrow> NewtonSolver \<Rightarrow> forms \<Rightarrow> nat list \<Rightarrow> (vec \<times> mat) solver" where
  \<comment> \<open>\<open>solver.solve(u.vector)\<close>: the iteration from the current displacement, on the
      buffers \<open>problem.vector\<close> and \<open>problem.matrix\<close>.\<close>
  "newton_solve lib s fs dofs st g =
     newton_iterate lib s (problem_of fs dofs g) (max_it s) 0 (u_vector g) (fst st) (snd st)"

definition converged_call :: "'s call \<Rightarrow> bool" where
  \<comment> \<open>The solver returned, and returned a true convergence flag.\<close>
  "converged_call c =
     (case c_result c of Inr (num_its, converged, u', st') \<Rightarrow> converged | Inl e \<Rightarrow> False)"

definition failed_with :: "(failure + nat \<times> bool \<times> vec \<times> 's) \<Rightarrow> failure \<Rightarrow> bool" where
  \<comment> \<open>A solver result that aborts the run with the error \<open>e\<close>: the solver raised
      \<open>e\<close>, or it returned a false convergence flag and the assertion failed.\<close>
  "failed_with r e =
     (case r of
        Inl e' \<Rightarrow> e = e'
      | Inr (num_its, converged, u', st') \<Rightarrow> \<not> converged \<and> e = AssertionError)"

definition satisfies_bcs :: "DirichletBC list \<Rightarrow> nat \<Rightarrow> vec \<Rightarrow> bool" where
  \<comment> \<open>A vector over \<open>n\<close> degrees of freedom takes the prescribed value at every
      prescribed degree of freedom.\<close>
  "satisfies_bcs bs n x \<longleftrightarrow> (\<forall>k<n. \<forall>g. bc_value bs k = Some g \<longrightarrow> x ! k = g)"

definition vanishes_on :: "nat list \<Rightarrow> nat \<Rightarrow> vec \<Rightarrow> bool" where
  "vanishes_on dofs n x \<longleftrightarrow> (\<forall>k\<in>set dofs. k < n \<longrightarrow> x ! k = 0)"

definition on_left_face :: "mesh \<Rightarrow> nat \<Rightarrow> bool" where
  \<comment> \<open>A boundary facet all of whose vertices have a first coordinate close to 0.\<close>
  "on_left_face msh f \<longleftrightarrow>
     f < length msh \<and> on_boundary (msh ! f) \<and> (\<forall>x\<in>set (vertices (msh ! f)). np_isclose (fst x) 0)"

definition vanishes_on_left_face :: "(nat \<Rightarrow> nat list) \<Rightarrow> mesh \<Rightarrow> nat \<Rightarrow> vec \<Rightarrow> bool" where
  \<comment> \<open>A vector over \<open>n\<close> degrees of freedom is zero at every degree of freedom of
      every facet of the face \<open>x = 0\<close>.\<close>
  "vanishes_on_left_face facet_dofs msh n x \<longleftrightarrow>
     (\<forall>f. on_left_face msh f \<longrightarrow> (\<forall>k\<in>set (facet_dofs f). k < n \<longrightarrow> x ! k = 0))"

definition result_vanishes :: "nat list \<Rightarrow> nat \<Rightarrow> (failure + nat \<times> bool \<times> vec \<times> 's) \<Rightarrow> bool" where
  \<comment> \<open>The displacement a solver call returned, converged or not, vanishes on the given
      degrees of freedom.\<close>
  "result_vanishes dofs n r =
     (case r of Inl e \<Rightarrow> True | Inr (num_its, converged, u', st') \<Rightarrow> vanishes_on dofs n u')"

definition bc_correction :: "DirichletBC list \<Rightarrow> vec \<Rightarrow> nat \<Rightarrow> real" where
  \<comment> \<open>The correction \<open>x0 - g\<close> at a prescribed degree of freedom, zero elsewhere.\<close>
  "bc_correction bs x0 j = (case bc_value bs j of None \<Rightarrow> 0 | Some g \<Rightarrow> x0 ! j - g)"

text \<open>Small concrete instances, on which the properties below are exercised.\<close>

definition example_mesh :: mesh where
  \<comment> \<open>Four facets: one on the face \<open>x = 0\<close>, one in the interior, one on the face
      \<open>x = 20\<close>, one on a side face.\<close>
  "example_mesh =
     [\<lparr>on_boundary = True, vertices = [(0, 0, 0), (0, 1, 0), (0, 0, 1)]\<rparr>,
      \<lparr>on_boundary = False, vertices = [(10, 0, 0), (10, 1, 0), (10, 0, 1)]\<rparr>,
      \<lparr>on_boundary = True, vertices = [(20, 0, 0), (20, 1, 0), (20, 0, 1)]\<rparr>,
      \<lparr>on_boundary = True, vertices = [(0, 0, 0), (20, 0, 0), (20, 0, 1)]\<rparr>]"

definition example_problem :: NonlinearPDEProblem where
  \<comment> \<open>Two degrees of freedom, the first prescribed to the value 10.\<close>
  "example_problem =
     \<lparr>L_form = (\<lambda>x. [x ! 0 + 5, 7]), a_form = (\<lambda>x. [[2, 3], [4, 5]]),
      bcs = [\<lparr>bc_values = [10, 0], bc_dofs = [0]\<rparr>]\<rparr>"

definition example_solver :: "nat solver" where
  \<comment> \<open>A solver that converges while the traction component stays above \<open>-8\<close>.\<close>
  "example_solver st g =
     Inr (2, - 8 < T_value g ! 2, map (\<lambda>v. v + T_value g ! 2) (u_vector g), Suc st)"

definition steady_solver :: "nat solver" where
  \<comment> \<open>A solver that always converges.\<close>
  "steady_solver st g = Inr (1, True, u_vector g, st)"

definition example_library :: library where
  \<comment> \<open>A linear solver for the systems whose right-hand side solves them (identity
      systems among them), and a test on the size of the correction.\<close>
  "example_library =
     \<lparr>linear_solve = (\<lambda>A r. if mat_vec A r = r then Some r else None),
      converged_test = (\<lambda>s dx x R. list_all (\<lambda>v. \<bar>v\<bar> < atol s) dx)\<rparr>"

definition example_forms :: forms where
  \<comment> \<open>Two degrees of freedom; left to itself each settles at the traction component.\<close>
  "example_forms =
     \<lparr>residual_form = (\<lambda>T x. [x ! 0 - T ! 2, x ! 1 - T ! 2]),
      jacobian_form = (\<lambda>T x. [[1, 0], [0, 1]])\<rparr>"

definition example_facet_dofs :: "nat \<Rightarrow> nat list" where
  "example_facet_dofs f = (if f = 0 then [0] else [1])"

definition example_run :: "(vec \<times> mat) call list \<times> (nat \<times> failure + globals)" where
  \<comment> \<open>The load steps on the example mesh: the degree of freedom 0 lies on the facet at
      \<open>x = 0\<close>, the degree of freedom 1 on the others.\<close>
  "example_run =
     load_stepping
       (newton_solve example_library (solver_options 2) example_forms
          (left_dofs example_facet_dofs example_mesh))
       2 ([5, 5], [[5, 5], [5, 5]])"

definition unconstrained_run :: "(vec \<times> mat) call list \<times> (nat \<times> failure + globals)" where
  \<comment> \<open>The same load steps with no degree of freedom constrained.\<close>
  "unconstrained_run =
     load_stepping (newton_solve example_library (solver_options 2) example_forms [])
       2 ([5, 5], [[5, 5], [5, 5]])"

section \<open>Properties of the constitutive model\<close>

lemma idx3: "i < (3::nat) \<Longrightarrow> i = 0 \<or> i = 1 \<or> i = 2"
  by arith

lemma sum3: "(\<Sum>k<(3::nat). f k) = f 0 + f 1 + f 2"
  by (simp add: eval_nat_numeral)

lemma Ic_set_entry:
  assumes "i < 3" "j < 3"
  shows "Ic (set_entry F i j t) = Ic F + t * t - (F i j) * (F i j)"
  using idx3[OF assms(1)] idx3[OF assms(2)]
  by (elim disjE; simp add: set_entry_def Ic_def ufl_tr_def C_green_def d_dim_def sum3)

lemma det_set_entry:
  assumes "i < 3" "j < 3"
  shows "ufl_det (set_entry F i j t) = ufl_det F + (t - F i j) * cofactor F i j"
  using idx3[OF assms(1)] idx3[OF assms(2)]
  by (elim disjE; simp add: set_entry_def cofactor_def nxt_def ufl_det_def algebra_simps)

lemma cofactor_expansion:
  assumes "i < 3" "j < 3"
  shows "(\<Sum>k<d_dim. A k i * cofactor A k j) = I_id i j * ufl_det A"
  using idx3[OF assms(1)] idx3[OF assms(2)]
  by (elim disjE; simp add: d_dim_def cofactor_def nxt_def I_id_def ufl_det_def sum3 algebra_simps)

text \<open>\<open>inv_T A\<close> is the inverse of the transpose of \<open>A\<close>.\<close>

lemma inv_T_is_inverse_transpose:
  assumes "ufl_det A \<noteq> 0" "i < 3" "j < 3"
  shows "(\<Sum>k<d_dim. A k i * inv_T A k j) = I_id i j"
proof -
  have "(\<Sum>k<d_dim. A k i * inv_T A k j) = (\<Sum>k<d_dim. A k i * cofactor A k j) / ufl_det A"
    by (simp add: inv_T_def sum_divide_distrib)
  then show ?thesis using assms by (simp add: cofactor_expansion)
qed

lemma psi_has_derivative:
  assumes "0 < J_det F" "i < 3" "j < 3"
  shows "((\<lambda>t. psi m l (set_entry F i j t)) has_real_derivative
           (m * (F i j - inv_T F i j) + l * ln (J_det F) * inv_T F i j)) (at (F i j))"
  unfolding psi_def J_det_def Ic_set_entry[OF assms(2,3)] det_set_entry[OF assms(2,3)]
  using assms(1)
  by (auto intro!: derivative_eq_intros simp: J_det_def inv_T_def field_simps)

lemma ufl_diff_eq:
  assumes "((\<lambda>t. f (set_entry F i j t)) has_real_derivative D) (at (F i j))"
  shows "ufl_diff f F i j = D"
  unfolding ufl_diff_def
proof (rule the_equality)
  show "((\<lambda>t. f (set_entry F i j t)) has_real_derivative D) (at (F i j))"
    by (rule assms)
next
  fix D'
  assume "((\<lambda>t. f (set_entry F i j t)) has_real_derivative D') (at (F i j))"
  then show "D' = D" using assms by (rule DERIV_unique)
qed

lemma P_stress_closed_form:
  assumes "0 < J_det F" "i < 3" "j < 3"
  shows "P_stress m l F i j = m * (F i j - inv_T F i j) + l * ln (J_det F) * inv_T F i j"
  unfolding P_stress_def by (rule ufl_diff_eq[OF psi_has_derivative[OF assms]])

text \<open>
  C1. For a deformation gradient \<open>F = I + grad u\<close> with \<open>det F > 0\<close>, the energy density
  is \<open>(mu/2)(Ic - d) - mu ln J + (lambda/2)(ln J)\<^sup>2\<close> with \<open>Ic = tr(F\<^sup>T F)\<close> and
  \<open>J = det F\<close>; the stress \<open>P\<close> is the derivative of \<open>psi\<close> with respect to each
  component of \<open>F\<close>, and equals \<open>mu (F - F\<^sup>-\<^sup>T) + lambda ln(J) F\<^sup>-\<^sup>T\<close>, where
  \<open>F\<^sup>-\<^sup>T\<close> (\<open>inv_T F\<close>) is the inverse of the transpose of \<open>F\<close>.
\<close>

theorem C1_energy_and_stress:
  assumes "F = F_grad gradu" "0 < ufl_det F" "i < d_dim" "j < d_dim"
  shows "psi m l F = (m / 2) * (Ic F - real d_dim) - m * ln (J_det F) + (l / 2) * (ln (J_det F))\<^sup>2
       \<and> Ic F = ufl_tr (\<lambda>i j. \<Sum>k<d_dim. F k i * F k j)
       \<and> J_det F = ufl_det F
       \<and> ((\<lambda>t. psi m l (set_entry F i j t)) has_real_derivative P_stress m l F i j) (at (F i j))
       \<and> P_stress m l F i j = m * (F i j - inv_T F i j) + l * ln (J_det F) * inv_T F i j
       \<and> (\<Sum>k<d_dim. F k i * inv_T F k j) = I_id i j"
proof -
  have pos: "0 < J_det F" using assms(2) by (simp add: J_det_def)
  have ij: "i < 3" "j < 3" using assms(3,4) by (simp_all add: d_dim_def)
  have cf: "P_stress m l F i j = m * (F i j - inv_T F i j) + l * ln (J_det F) * inv_T F i j"
    by (rule P_stress_closed_form[OF pos ij])
  have dv: "((\<lambda>t. psi m l (set_entry F i j t)) has_real_derivative P_stress m l F i j) (at (F i j))"
    unfolding cf by (rule psi_has_derivative[OF pos ij])
  have inv: "(\<Sum>k<d_dim. F k i * inv_T F k j) = I_id i j"
    using assms(2) ij by (intro inv_T_is_inverse_transpose) simp_all
  have e: "psi m l F = (m / 2) * (Ic F - real d_dim) - m * ln (J_det F) + (l / 2) * (ln (J_det F))\<^sup>2"
    by (simp add: psi_def d_dim_def)
  have t: "Ic F = ufl_tr (\<lambda>i j. \<Sum>k<d_dim. F k i * F k j)"
    by (simp add: Ic_def ufl_tr_def C_green_def)
  show ?thesis using e t cf dv inv by (simp add: J_det_def)
qed

theorem C1_energy_and_stress_witness:
  "0 < ufl_det (F_grad stretch_grad) \<and> (0::nat) < d_dim
   \<and> psi mu lmbda (F_grad stretch_grad) = (mu / 2) * 3 - mu * ln 2 + (lmbda / 2) * (ln 2)\<^sup>2
   \<and> P_stress mu lmbda (F_grad stretch_grad) 0 0 = mu * (2 - 1 / 2) + lmbda * ln 2 * (1 / 2)"
proof -
  have d: "ufl_det (F_grad stretch_grad) = 2"
    by (simp add: ufl_det_def F_grad_def stretch_grad_def I_id_def)
  have h: "0 < ufl_det (F_grad stretch_grad)" "(0::nat) < d_dim"
    by (simp_all add: d d_dim_def)
  have ic: "Ic (F_grad stretch_grad) = 6"
    by (simp add: Ic_def ufl_tr_def C_green_def d_dim_def sum3 F_grad_def stretch_grad_def I_id_def)
  have iv: "inv_T (F_grad stretch_grad) 0 0 = 1 / 2"
    by (simp add: inv_T_def cofactor_def nxt_def d F_grad_def stretch_grad_def I_id_def)
  show ?thesis
    using C1_energy_and_stress[OF refl h(1) h(2) h(2), of mu lmbda] h
    by (simp add: d_dim_def J_det_def d ic iv F_grad_def stretch_grad_def I_id_def)
qed

lemma zero_is_identity: "F_grad zero_grad = I_id"
  by (simp add: F_grad_def zero_grad_def fun_eq_iff)

lemma det_identity: "ufl_det I_id = 1"
  by (simp add: ufl_det_def I_id_def)

lemma Ic_identity: "Ic I_id = 3"
  by (simp add: Ic_def ufl_tr_def C_green_def d_dim_def sum3 I_id_def)

lemma inv_T_identity: "i < 3 \<Longrightarrow> j < 3 \<Longrightarrow> inv_T I_id i j = I_id i j"
  by (drule idx3, drule idx3) (auto simp: inv_T_def det_identity cofactor_def nxt_def I_id_def)

text \<open>
  C6. At the identity deformation gradient (zero displacement gradient) the energy
  density is zero and every component of the first Piola-Kirchhoff stress is zero, for
  all values of the material parameters, the positive ones among them.
\<close>

theorem C6_identity_is_stress_free:
  "F_grad zero_grad = I_id
   \<and> psi m l (F_grad zero_grad) = 0
   \<and> (\<forall>i<d_dim. \<forall>j<d_dim. P_stress m l (F_grad zero_grad) i j = 0)"
proof -
  have p: "0 < J_det I_id" by (simp add: J_det_def det_identity)
  have "P_stress m l I_id i j = 0" if "i < 3" "j < 3" for i j
    using P_stress_closed_form[OF p that, of m l] that
    by (simp add: inv_T_identity J_det_def det_identity)
  moreover have "psi m l I_id = 0"
    by (simp add: psi_def Ic_identity J_det_def det_identity)
  ultimately show ?thesis by (simp add: zero_is_identity d_dim_def)
qed

theorem C6_identity_is_stress_free_witness:
  "(0::real) < mu \<and> 0 < lmbda \<and> psi mu lmbda (F_grad zero_grad) = 0
   \<and> (1::nat) < d_dim \<and> (2::nat) < d_dim
   \<and> P_stress mu lmbda (F_grad zero_grad) 1 2 = 0"
proof -
  have pos: "0 < mu" "0 < lmbda"
    by (simp_all add: mu_def lmbda_def E_young_def nu_def)
  have b: "(1::nat) < d_dim" "(2::nat) < d_dim"
    by (simp_all add: d_dim_def)
  have "psi mu lmbda (F_grad zero_grad) = 0" "P_stress mu lmbda (F_grad zero_grad) 1 2 = 0"
    using C6_identity_is_stress_free[of mu lmbda] b by blast+
  then show ?thesis using pos b by simp
qed

lemma kernel_psi_outcome:
  "kernel_psi k m l gradu =
     (case b_ln k (kernel_J k gradu) of
        Inl e \<Rightarrow> Inl e
      | Inr a \<Rightarrow>
          Inr (b_add k
                 (b_sub k
                    (b_mul k (b_div k (b_num k m) (b_num k 2))
                       (b_sub k (kernel_Ic k gradu) (b_num k 3)))
                    (b_mul k (b_num k m) a))
                 (b_mul k (b_div k (b_num k l) (b_num k 2)) (b_pow k a 2))))"
  by (simp add: kernel_psi_def Let_def split: sum.split)


lemma exact_F: "kernel_F exact_backend gradu i j = Some (F_grad gradu i j)"
  by (simp add: kernel_F_def exact_backend_def lift2_def F_grad_def)

lemma exact_J: "kernel_J exact_backend gradu = Some (J_det (F_grad gradu))"
  by (simp add: kernel_J_def kernel_det_def exact_F J_det_def ufl_det_def)
    (simp add: exact_backend_def lift2_def)

lemma exact_Ic: "kernel_Ic exact_backend gradu = Some (Ic (F_grad gradu))"
  by (simp add: kernel_Ic_def kernel_tr_def kernel_C_def exact_F Ic_def ufl_tr_def C_green_def
      d_dim_def sum3)
    (simp add: exact_backend_def lift2_def)

text \<open>
  In exact arithmetic and at a positive determinant the kernel expression is the energy
  density \<open>psi\<close> of the statements above.
\<close>

lemma exact_backend_agrees:
  "0 < J_det (F_grad gradu) \<Longrightarrow>
     kernel_psi exact_backend m l gradu = Inr (Some (psi m l (F_grad gradu)))"
  unfolding kernel_psi_outcome exact_J exact_Ic
  by (simp add: exact_backend_def lift2_def psi_def)





section \<open>Properties of the facet markers\<close>

lemma zip_take_at:
  "zip (take_at a idx) (take_at b idx) = map (\<lambda>i. (a ! i, b ! i)) idx"
  by (induction idx) (simp_all add: take_at_def)

lemma facet_tag_pairs:
  "set (zip (indices (facet_tag msh)) (tag_values (facet_tag msh)))
     = set (zip (marked_facets msh) (marked_values msh))"
proof -
  let ?a = "marked_facets msh" and ?b = "marked_values msh"
  have len: "length ?a = length ?b"
    by (simp add: marked_facets_def marked_values_def)
  have "set (zip (indices (facet_tag msh)) (tag_values (facet_tag msh)))
          = (\<lambda>i. (?a ! i, ?b ! i)) ` set (sorted_facets msh)"
    by (simp add: facet_tag_def zip_take_at)
  also have "set (sorted_facets msh) = {0..<length ?a}"
    by (simp add: sorted_facets_def np_argsort_def)
  also have "(\<lambda>i. (?a ! i, ?b ! i)) ` {0..<length ?a} = set (zip ?a ?b)"
    using len by (auto simp: set_zip image_iff)
  finally show ?thesis .
qed

lemma set_tagged:
  "set (tagged tags k) = {f. (f, k) \<in> set (zip (indices tags) (tag_values tags))}"
  by (auto simp: tagged_def image_iff)

lemma marked_pairs:
  "set (zip (marked_facets msh) (marked_values msh))
     = (\<lambda>f. (f, 1)) ` set (left_facets msh) \<union> (\<lambda>f. (f, 2)) ` set (right_facets msh)"
  unfolding marked_facets_def marked_values_def
  by (simp add: zip_replicate2 image_Un)

lemma tagged_left: "set (tagged (facet_tag msh) 1) = set (left_facets msh)"
  by (auto simp: set_tagged facet_tag_pairs marked_pairs)

lemma tagged_right: "set (tagged (facet_tag msh) 2) = set (right_facets msh)"
  by (auto simp: set_tagged facet_tag_pairs marked_pairs)

lemma indices_sorted: "sorted (indices (facet_tag msh))"
  unfolding facet_tag_def sorted_facets_def np_argsort_def take_at_def
  by simp

lemma set_locate:
  "set (locate_entities_boundary msh marker)
     = {i. i < length msh \<and> on_boundary (msh ! i) \<and> (\<forall>x\<in>set (vertices (msh ! i)). marker x)}"
  by (auto simp: locate_entities_boundary_def list_all_iff)

lemma not_left_and_right: "\<not> (left x \<and> right x)"
  unfolding left_def right_def np_isclose_def L_beam_def
  by (cases "0 \<le> fst x") (simp_all add: abs_if)

lemma traction_facets:
  "integration_facets tags F_form Traction_term = tagged tags 2"
  by (simp add: integration_facets_def F_form_def)

text \<open>
  C8. The traction term of the residual form is integrated over the facets that carry
  the marker 2 and over no others; the facets marked 2 are exactly the boundary facets
  whose vertices all have a first coordinate close to \<open>L\<close> (in the sense of
  \<open>np.isclose\<close>), and the facets marked 1, the ones the Dirichlet condition is built
  from, are exactly the boundary facets whose first coordinate is close to 0.
\<close>

theorem C8_traction_on_marker_2:
  "integration_facets (facet_tag msh) F_form Traction_term = tagged (facet_tag msh) 2
   \<and> set (tagged (facet_tag msh) 2)
       = {f. f < length msh \<and> on_boundary (msh ! f)
              \<and> (\<forall>x\<in>set (vertices (msh ! f)). np_isclose (fst x) L_beam)}
   \<and> set (tagged (facet_tag msh) 1)
       = {f. f < length msh \<and> on_boundary (msh ! f)
              \<and> (\<forall>x\<in>set (vertices (msh ! f)). np_isclose (fst x) 0)}"
  using tagged_left[of msh] tagged_right[of msh]
  by (simp add: traction_facets left_facets_def right_facets_def set_locate left_def right_def)

theorem C8_traction_on_marker_2_witness:
  "2 \<in> set (integration_facets (facet_tag example_mesh) F_form Traction_term)
   \<and> 0 \<notin> set (integration_facets (facet_tag example_mesh) F_form Traction_term)
   \<and> 3 \<notin> set (integration_facets (facet_tag example_mesh) F_form Traction_term)
   \<and> 0 \<in> set (tagged (facet_tag example_mesh) 1)
   \<and> 1 \<notin> set (tagged (facet_tag example_mesh) 1)"
proof -
  note t = C8_traction_on_marker_2[of example_mesh]
  have r: "set (tagged (facet_tag example_mesh) 2)
       = {f. f < length example_mesh \<and> on_boundary (example_mesh ! f)
              \<and> (\<forall>x\<in>set (vertices (example_mesh ! f)). np_isclose (fst x) L_beam)}"
    and l: "set (tagged (facet_tag example_mesh) 1)
       = {f. f < length example_mesh \<and> on_boundary (example_mesh ! f)
              \<and> (\<forall>x\<in>set (vertices (example_mesh ! f)). np_isclose (fst x) 0)}"
    and i: "integration_facets (facet_tag example_mesh) F_form Traction_term
       = tagged (facet_tag example_mesh) 2"
    using t by blast+
  show ?thesis
    unfolding i r l
    by (simp add: example_mesh_def np_isclose_def L_beam_def)
qed

section \<open>Properties of the assembly\<close>

lemma fold_update_length: "length (fold (\<lambda>k b. b[k := f k]) ks b) = length b"
  by (induction ks arbitrary: b) simp_all

lemma fold_update_nth:
  "k < length b \<Longrightarrow> fold (\<lambda>k b. b[k := f k]) ks b ! k = (if k \<in> set ks then f k else b ! k)"
proof (induction ks arbitrary: b)
  case Nil
  then show ?case by simp
next
  case (Cons a ks)
  then show ?case by (auto simp: nth_list_update)
qed

lemma length_set_bc_one: "length (set_bc_one bc x0 s b) = length b"
  by (simp add: set_bc_one_def fold_update_length)

lemma set_bc_one_nth:
  "k < length b \<Longrightarrow> set_bc_one bc x0 s b ! k =
     (if k \<in> set (bc_dofs bc) then s * (bc_values bc ! k - x0 ! k) else b ! k)"
  by (simp add: set_bc_one_def fold_update_nth)

lemma length_set_bc: "length (set_bc b bs x0 s) = length b"
  unfolding set_bc_def by (induction bs arbitrary: b) (simp_all add: length_set_bc_one)

lemma set_bc_nth:
  "k < length b \<Longrightarrow> set_bc b bs x0 s ! k =
     (case bc_value bs k of None \<Rightarrow> b ! k | Some g \<Rightarrow> s * (g - x0 ! k))"
  unfolding set_bc_def
proof (induction bs arbitrary: b)
  case Nil
  then show ?case by simp
next
  case (Cons bc bs)
  have "k < length (set_bc_one bc x0 s b)"
    using Cons.prems by (simp add: length_set_bc_one)
  from Cons.IH[OF this] show ?case
    using Cons.prems by (simp add: set_bc_one_nth split: option.split)
qed

lemma length_F_residual: "length (F_residual p x b) = length b"
  by (simp add: F_residual_def Let_def length_set_bc ghostUpdate_def apply_lifting_def
      assemble_vector_def vec_set_def)

lemma F_residual_buffer: "F_residual p x b = F_residual p x (replicate (length b) 0)"
  by (simp add: F_residual_def vec_set_def)

lemma lifted_nth:
  "i < length b \<Longrightarrow>
     apply_lifting (assemble_vector (vec_set b 0) c) A bs x0 s ! i = c ! i - s * lifting_row (A ! i) bs x0"
  by (simp add: apply_lifting_def assemble_vector_def vec_set_def)

lemma lifting_row_correction:
  "lifting_row row bs x0 = - (\<Sum>j\<leftarrow>[0..<length row]. row ! j * bc_correction bs x0 j)"
proof -
  have "(\<lambda>j. case bc_value bs j of None \<Rightarrow> 0 | Some g \<Rightarrow> row ! j * (g - x0 ! j))
          = (\<lambda>j. - (row ! j * bc_correction bs x0 j))"
    by (auto simp: bc_correction_def fun_eq_iff algebra_simps split: option.split)
  then show ?thesis
    by (simp add: lifting_row_def uminus_sum_list_map o_def)
qed

lemma F_residual_prescribed:
  assumes "k < length b" "bc_value (bcs p) k = Some g"
  shows "F_residual p x b ! k = x ! k - g"
  using assms
  by (simp add: F_residual_def ghostUpdate_def set_bc_nth apply_lifting_def assemble_vector_def
      vec_set_def)

text \<open>
  C2. After the residual has been assembled with boundary lifting, its entry at every
  prescribed degree of freedom \<open>k\<close> with prescribed value \<open>g\<close> is \<open>x[k] - g\<close>, for
  every trial displacement \<open>x\<close>, every content of the element contributions and every
  previous content of the buffer. The lifting correction is applied before the
  constrained rows are overwritten: every unconstrained entry holds the element
  contribution minus the row of \<open>A\<close> times the correction.
\<close>

theorem C2_residual_on_prescribed_dofs:
  assumes "k < length b" "bc_value (bcs p) k = Some g"
  shows "F_residual p x b ! k = x ! k - g
       \<and> (\<forall>i<length b. bc_value (bcs p) i = None \<longrightarrow>
            F_residual p x b ! i =
              L_form p x ! i - (\<Sum>j\<leftarrow>[0..<length (a_form p x ! i)]. a_form p x ! i ! j * bc_correction (bcs p) x j))"
proof -
  let ?b3 = "apply_lifting (assemble_vector (vec_set b 0) (L_form p x)) (a_form p x) (bcs p) x (- 1)"
  have len: "length ?b3 = length b"
    by (simp add: apply_lifting_def assemble_vector_def vec_set_def)
  have F: "F_residual p x b = set_bc ?b3 (bcs p) x (- 1)"
    by (simp add: F_residual_def ghostUpdate_def)
  have "F_residual p x b ! k = x ! k - g"
    using assms by (simp add: F set_bc_nth len)
  moreover have "F_residual p x b ! i =
      L_form p x ! i - (\<Sum>j\<leftarrow>[0..<length (a_form p x ! i)]. a_form p x ! i ! j * bc_correction (bcs p) x j)"
    if "i < length b" "bc_value (bcs p) i = None" for i
    using that by (simp add: F set_bc_nth len lifted_nth lifting_row_correction)
  ultimately show ?thesis by blast
qed

lemma upt2: "[0..<2] = [0, 1]"
  by (simp add: upt_conv_Cons)

theorem C2_residual_on_prescribed_dofs_witness:
  "(0::nat) < length [99, 98::real] \<and> bc_value (bcs example_problem) 0 = Some 10
   \<and> F_residual example_problem [1, 2] [99, 98] ! 0 = 1 - 10
   \<and> F_residual example_problem [1, 2] [99, 98] ! 1 = 43"
proof -
  have h: "(0::nat) < length [99, 98::real]" "bc_value (bcs example_problem) 0 = Some 10"
    by (simp_all add: example_problem_def)
  have n: "(1::nat) < length [99, 98::real]" "bc_value (bcs example_problem) 1 = None"
    by (simp_all add: example_problem_def)
  have c: "bc_correction (bcs example_problem) [1, 2] 0 = - 9"
          "bc_correction (bcs example_problem) [1, 2] (Suc 0) = 0"
    by (simp_all add: bc_correction_def example_problem_def)
  have a: "a_form example_problem [1, 2] ! Suc 0 = [4, 5]"
    "L_form example_problem [1, 2] ! Suc 0 = 7"
    by (simp_all add: example_problem_def)
  from C2_residual_on_prescribed_dofs[OF h, of "[1, 2]"] n
  have "F_residual example_problem [1, 2] [99, 98] ! 0 = 1 - 10"
    and "F_residual example_problem [1, 2] [99, 98] ! 1
          = L_form example_problem [1, 2] ! 1
            - (\<Sum>j\<leftarrow>[0..<length (a_form example_problem [1, 2] ! 1)].
                 a_form example_problem [1, 2] ! 1 ! j * bc_correction (bcs example_problem) [1, 2] j)"
    by simp_all
  then show ?thesis using h by (simp add: a c upt2)
qed

lemma unit_row_sum:
  "(\<Sum>j\<leftarrow>[0..<m]. (if j = k then 1 else 0) * f j) = (if k < m then f k else (0::real))"
  by (induction m) (auto simp: less_Suc_eq)

lemma zeroEntries_nth: "i < length A \<Longrightarrow> j < length (A ! i) \<Longrightarrow> zeroEntries A ! i ! j = 0"
  by (simp add: zeroEntries_def)

lemma length_zeroEntries: "length (zeroEntries A) = length A"
  by (simp add: zeroEntries_def)

lemma row_length_zeroEntries: "i < length A \<Longrightarrow> length (zeroEntries A ! i) = length (A ! i)"
  by (simp add: zeroEntries_def)

lemma J_row_prescribed:
  assumes "k < length A" "bc_value (bcs p) k = Some g"
  shows "J_jacobian p x A ! k = map (\<lambda>j. if j = k then 1 else 0) [0..<length (A ! k)]"
  using assms
  by (simp add: J_jacobian_def Let_def mat_assemble_def assemble_matrix_def length_zeroEntries
      row_length_zeroEntries zeroEntries_nth cong: map_cong)

lemma length_J: "length (J_jacobian p x A) = length A"
  by (simp add: J_jacobian_def Let_def mat_assemble_def assemble_matrix_def length_zeroEntries)

lemma J_mat_vec_prescribed:
  assumes "k < length A" "k < length (A ! k)" "bc_value (bcs p) k = Some g"
  shows "mat_vec (J_jacobian p x A) v ! k = v ! k"
proof -
  have "mat_vec (J_jacobian p x A) v ! k
      = (\<Sum>j\<leftarrow>[0..<length (J_jacobian p x A ! k)]. J_jacobian p x A ! k ! j * v ! j)"
    using assms(1) by (simp add: mat_vec_def length_J)
  also have "\<dots> = (\<Sum>j\<leftarrow>[0..<length (A ! k)]. (if j = k then 1 else 0) * v ! j)"
    unfolding J_row_prescribed[OF assms(1,3)]
    by (intro arg_cong[where f = sum_list] map_cong) simp_all
  also have "\<dots> = v ! k"
    using assms(2) by (simp add: unit_row_sum)
  finally show ?thesis .
qed

text \<open>
  C7. After the Jacobian has been assembled with the boundary conditions, the row of
  every prescribed degree of freedom \<open>k\<close> is zero except for the diagonal entry 1. So
  row \<open>k\<close> of the product with any vector is the entry \<open>k\<close> of that vector, and a
  correction \<open>v\<close> solved from \<open>J v = - R\<close> brings the constrained entry to its
  prescribed value; it leaves the entry unchanged when the constraint already holds.
\<close>

theorem C7_prescribed_rows_are_identity:
  assumes "k < length A" "k < length (A ! k)" "bc_value (bcs p) k = Some g"
  shows "J_jacobian p x A ! k = map (\<lambda>j. if j = k then 1 else 0) [0..<length (A ! k)]
       \<and> (\<forall>v. mat_vec (J_jacobian p x A) v ! k = v ! k)
       \<and> (\<forall>v b. length b = length A \<and> mat_vec (J_jacobian p x A) v = map uminus (F_residual p x b)
             \<longrightarrow> x ! k + v ! k = g \<and> (x ! k = g \<longrightarrow> v ! k = 0))"
proof -
  have row: "J_jacobian p x A ! k = map (\<lambda>j. if j = k then 1 else 0) [0..<length (A ! k)]"
    by (rule J_row_prescribed[OF assms(1,3)])
  have mv: "mat_vec (J_jacobian p x A) v ! k = v ! k" for v
    by (rule J_mat_vec_prescribed[OF assms])
  have "x ! k + v ! k = g \<and> (x ! k = g \<longrightarrow> v ! k = 0)"
    if "length b = length A" "mat_vec (J_jacobian p x A) v = map uminus (F_residual p x b)" for v b
  proof -
    have kb: "k < length b" using that(1) assms(1) by simp
    have "F_residual p x b ! k = x ! k - g"
      using kb assms(3) by (simp add: F_residual_prescribed)
    moreover have "mat_vec (J_jacobian p x A) v ! k = - (F_residual p x b ! k)"
      using kb by (simp add: that(2) length_F_residual)
    ultimately have "v ! k = g - x ! k" using mv[of v] by simp
    then show ?thesis by simp
  qed
  then show ?thesis using row mv by blast
qed

theorem C7_prescribed_rows_are_identity_witness:
  "(0::nat) < length [[7, 7], [7, 7::real]] \<and> 0 < length ([[7, 7], [7, 7::real]] ! 0)
   \<and> bc_value (bcs example_problem) 0 = Some 10
   \<and> J_jacobian example_problem [1, 2] [[7, 7], [7, 7]] ! 0 = [1, 0]
   \<and> mat_vec (J_jacobian example_problem [1, 2] [[7, 7], [7, 7]]) [3, 4] ! 0 = 3"
proof -
  have h: "(0::nat) < length [[7, 7], [7, 7::real]]" "0 < length ([[7, 7], [7, 7::real]] ! 0)"
    "bc_value (bcs example_problem) 0 = Some 10"
    by (simp_all add: example_problem_def)
  from C7_prescribed_rows_are_identity[OF h, of "[1, 2]"]
  have "J_jacobian example_problem [1, 2] [[7, 7], [7, 7]] ! 0
          = map (\<lambda>j. if j = 0 then 1 else 0) [0..<length ([[7, 7], [7, 7::real]] ! 0)]"
    and "mat_vec (J_jacobian example_problem [1, 2] [[7, 7], [7, 7]]) [3, 4] ! 0 = [3, 4] ! 0"
    by blast+
  then show ?thesis using h by (simp add: upt2)
qed

lemma zeroEntries_shape: "zeroEntries A = map (\<lambda>r. replicate (length r) 0) A"
  by (simp add: zeroEntries_def map_replicate_const)

lemma J_jacobian_buffer:
  assumes "map length A' = map length A"
  shows "J_jacobian p x A' = J_jacobian p x A"
proof -
  have "zeroEntries A' = map (\<lambda>n. replicate n 0) (map length A')"
    by (simp add: zeroEntries_shape o_def)
  also have "\<dots> = zeroEntries A"
    by (simp add: assms zeroEntries_shape o_def)
  finally show ?thesis by (simp add: J_jacobian_def)
qed

lemma shape_J: "map length (J_jacobian p x A) = map length A"
  by (intro nth_equalityI)
    (simp_all add: J_jacobian_def Let_def mat_assemble_def assemble_matrix_def length_zeroEntries
      row_length_zeroEntries)

text \<open>
  C9. The residual assembled at a displacement does not depend on what the buffer held
  before: the buffer is reset at the start of every call. Assembling a second time into
  the result of the first gives the same vector, and so does assembling into any other
  buffer of the same size. The same holds for the Jacobian and its matrix buffer.
\<close>

theorem C9_assembly_is_idempotent:
  "F_residual p x (F_residual p x b) = F_residual p x b
   \<and> (\<forall>b'. length b' = length b \<longrightarrow> F_residual p x b' = F_residual p x b)
   \<and> J_jacobian p x (J_jacobian p x A) = J_jacobian p x A
   \<and> (\<forall>A'. map length A' = map length A \<longrightarrow> J_jacobian p x A' = J_jacobian p x A)"
proof -
  have f: "F_residual p x b' = F_residual p x b" if "length b' = length b" for b'
    using F_residual_buffer[of p x b'] F_residual_buffer[of p x b] that by simp
  have j: "J_jacobian p x A' = J_jacobian p x A" if "map length A' = map length A" for A'
    by (rule J_jacobian_buffer[OF that])
  show ?thesis using f[OF length_F_residual] j[OF shape_J] f j by blast
qed

theorem C9_assembly_is_idempotent_witness:
  "F_residual example_problem [1, 2] (F_residual example_problem [1, 2] [99, 98])
     = F_residual example_problem [1, 2] [99, 98]
   \<and> length [0, 0::real] = length [99, 98::real]
   \<and> F_residual example_problem [1, 2] [0, 0] = F_residual example_problem [1, 2] [99, 98]
   \<and> F_residual example_problem [1, 2] [99, 98] = [- 9, 43]"
proof -
  have v: "F_residual example_problem [1, 2] [0, 0] = [- 9, 43]"
    by (simp add: F_residual_def example_problem_def vec_set_def assemble_vector_def
        apply_lifting_def lifting_row_def ghostUpdate_def set_bc_def set_bc_one_def upt2)
  have l: "length [0, 0::real] = length [99, 98::real]" by simp
  from C9_assembly_is_idempotent[of example_problem "[1, 2]" "[99, 98]"] l
  have "F_residual example_problem [1, 2] (F_residual example_problem [1, 2] [99, 98])
     = F_residual example_problem [1, 2] [99, 98]"
    and "F_residual example_problem [1, 2] [0, 0] = F_residual example_problem [1, 2] [99, 98]"
    by blast+
  then show ?thesis using v l by simp
qed

section \<open>Properties of the load steps\<close>

lemma load_steps_Cons:
  "load_steps solve (n # ns) g st =
     (case solve st (g\<lparr>T_value := (T_value g)[2 := real n * tval0]\<rparr>) of
        Inl e \<Rightarrow> ([\<lparr>c_step = n, c_globals = g\<lparr>T_value := (T_value g)[2 := real n * tval0]\<rparr>,
                     c_state = st, c_result = Inl e\<rparr>], Inl (n, e))
      | Inr (num_its, converged, u', st') \<Rightarrow>
          if converged
          then (\<lparr>c_step = n, c_globals = g\<lparr>T_value := (T_value g)[2 := real n * tval0]\<rparr>,
                 c_state = st, c_result = Inr (num_its, converged, u', st')\<rparr>
                # fst (load_steps solve ns (g\<lparr>T_value := (T_value g)[2 := real n * tval0], u_vector := u'\<rparr>) st'),
                snd (load_steps solve ns (g\<lparr>T_value := (T_value g)[2 := real n * tval0], u_vector := u'\<rparr>) st'))
          else ([\<lparr>c_step = n, c_globals = g\<lparr>T_value := (T_value g)[2 := real n * tval0]\<rparr>,
                  c_state = st, c_result = Inr (num_its, converged, u', st')\<rparr>], Inl (n, AssertionError)))"
  by (simp add: Let_def split: sum.split prod.split)

lemma steps_prefix:
  "map c_step (fst (load_steps solve ns g st)) = take (length (fst (load_steps solve ns g st))) ns"
proof (induction ns arbitrary: g st)
  case Nil
  then show ?case by simp
next
  case (Cons n ns)
  show ?case
    unfolding load_steps_Cons
    by (simp add: Cons.IH split: sum.split prod.split)
qed

lemma steps_length: "length (fst (load_steps solve ns g st)) \<le> length ns"
proof (induction ns arbitrary: g st)
  case Nil
  then show ?case by simp
next
  case (Cons n ns)
  show ?case
    unfolding load_steps_Cons
    by (simp add: Cons.IH split: sum.split prod.split)
qed

lemma steps_globals:
  "c \<in> set (fst (load_steps solve ns g st)) \<Longrightarrow>
     T_value (c_globals c) = (T_value g)[2 := real (c_step c) * tval0]
     \<and> u_bc_vector (c_globals c) = u_bc_vector g"
proof (induction ns arbitrary: g st)
  case Nil
  then show ?case by simp
next
  case (Cons n ns)
  show ?case
    using Cons.prems unfolding load_steps_Cons
    by (auto split: sum.splits prod.splits if_splits dest!: Cons.IH)
qed

lemma steps_follow: "follows solve (u_vector g) st (fst (load_steps solve ns g st))"
proof (induction ns arbitrary: g st)
  case Nil
  then show ?case by simp
next
  case (Cons n ns)
  have ih: "follows solve u' st' (fst (load_steps solve ns (g1\<lparr>u_vector := u'\<rparr>) st'))"
    for u' st' g1
    using Cons.IH[of "g1\<lparr>u_vector := u'\<rparr>" st'] by simp
  show ?case
    unfolding load_steps_Cons
    by (auto split: sum.split prod.split bool.split simp: ih)
qed

lemma converged_call_Inr:
  "converged_call \<lparr>c_step = n, c_globals = g, c_state = st, c_result = Inr (i, c, u, s)\<rparr> = c"
  by (simp add: converged_call_def)

lemma steps_completed:
  "snd (load_steps solve ns g st) = Inr g' \<Longrightarrow>
     length (fst (load_steps solve ns g st)) = length ns
     \<and> list_all converged_call (fst (load_steps solve ns g st))"
proof (induction ns arbitrary: g st)
  case Nil
  then show ?case by simp
next
  case (Cons n ns)
  show ?case
    using Cons.prems unfolding load_steps_Cons
    by (auto simp: converged_call_Inr split: sum.splits prod.splits if_splits dest!: Cons.IH)
qed

lemma steps_aborted:
  "snd (load_steps solve ns g st) = Inl (k, e) \<Longrightarrow>
     fst (load_steps solve ns g st) \<noteq> []
     \<and> c_step (last (fst (load_steps solve ns g st))) = k
     \<and> failed_with (c_result (last (fst (load_steps solve ns g st)))) e"
proof (induction ns arbitrary: g st)
  case Nil
  then show ?case by simp
next
  case (Cons n ns)
  show ?case
    using Cons.prems unfolding load_steps_Cons
    by (auto simp: failed_with_def split: sum.splits prod.splits if_splits dest!: Cons.IH)
qed

lemma last_upt_1: "0 < k \<Longrightarrow> last [1..<Suc k] = k"
  by (cases k) simp_all

lemma take_steps: "k \<le> 9 \<Longrightarrow> take k [1..<10] = [1..<Suc k]"
  by simp

text \<open>
  C5. The loop makes at most nine solver calls, numbered 1, 2, ... in order, the call of
  step \<open>n\<close> with the traction \<open>(0, 0, n * (-1.5))\<close>. The first call starts from the
  zero displacement and every later call from the displacement the converged call before
  it returned. A run that ends normally has made exactly the nine calls of the steps 1 to
  9, all converged. A run in which the solver raises or reports no convergence at step
  \<open>k\<close> aborts there: the call of step \<open>k\<close> is the last one made.
\<close>

theorem C5_nine_load_steps:
  assumes "load_stepping solve n st = (calls, out)"
  shows "length calls \<le> 9
       \<and> map c_step calls = [1..<Suc (length calls)]
       \<and> (\<forall>c\<in>set calls. T_value (c_globals c) = [0, 0, real (c_step c) * (- (3 / 2))])
       \<and> follows solve (replicate n 0) st calls
       \<and> (\<forall>g. out = Inr g \<longrightarrow> length calls = 9 \<and> list_all converged_call calls)
       \<and> (\<forall>k e. out = Inl (k, e) \<longrightarrow>
             length calls = k \<and> calls \<noteq> [] \<and> failed_with (c_result (last calls)) e)"
proof -
  let ?g = "initial_globals n"
  have log: "calls = fst (load_steps solve [1..<10] ?g st)"
    and out: "out = snd (load_steps solve [1..<10] ?g st)"
    using assms by (simp_all add: load_stepping_def)
  have len: "length calls \<le> 9"
    using steps_length[of solve "[1..<10]" ?g st] by (simp add: log)
  have st: "map c_step calls = [1..<Suc (length calls)]"
    using steps_prefix[of solve "[1..<10]" ?g st] take_steps[OF len] by (simp add: log)
  have tr: "T_value (c_globals c) = [0, 0, real (c_step c) * (- (3 / 2))]" if "c \<in> set calls" for c
    using steps_globals[of c solve "[1..<10]" ?g st] that
    by (simp add: log initial_globals_def tval0_def)
  have fo: "follows solve (replicate n 0) st calls"
    using steps_follow[of solve ?g st "[1..<10]"] by (simp add: log initial_globals_def)
  have co: "length calls = 9 \<and> list_all converged_call calls" if "out = Inr g" for g
    using steps_completed[of solve "[1..<10]" ?g st g] that by (simp add: log out)
  have ab: "length calls = k \<and> calls \<noteq> [] \<and> failed_with (c_result (last calls)) e"
    if "out = Inl (k, e)" for k e
  proof -
    have a: "calls \<noteq> []" "c_step (last calls) = k" "failed_with (c_result (last calls)) e"
      using steps_aborted[of solve "[1..<10]" ?g st k e] that by (simp_all add: log out)
    have "c_step (last calls) = last (map c_step calls)"
      using a(1) by (simp add: last_map)
    also have "\<dots> = length calls"
      using a(1) unfolding st by (intro last_upt_1) simp
    finally show ?thesis using a by simp
  qed
  show ?thesis using len st tr fo co ab by blast
qed

lemma upt_1_10: "[Suc 0..<10] = [1, 2, 3, 4, 5, 6, 7, 8, 9]"
  by (simp add: upt_conv_Cons)

lemma example_aborts: "snd (load_stepping example_solver 2 0) = Inl (6, AssertionError)"
  by (simp add: load_stepping_def upt_1_10 example_solver_def initial_globals_def tval0_def Let_def)

lemma steady_completes: "\<exists>g. snd (load_stepping steady_solver 2 0) = Inr g"
  by (simp add: load_stepping_def upt_1_10 steady_solver_def initial_globals_def tval0_def Let_def)

theorem C5_nine_load_steps_witness:
  "map c_step (fst (load_stepping example_solver 2 0)) = [1, 2, 3, 4, 5, 6]
   \<and> snd (load_stepping example_solver 2 0) = Inl (6, AssertionError)
   \<and> map c_step (fst (load_stepping steady_solver 2 0)) = [1, 2, 3, 4, 5, 6, 7, 8, 9]
   \<and> map (T_value \<circ> c_globals) (fst (load_stepping steady_solver 2 0))
       = [[0, 0, - 1.5], [0, 0, - 3], [0, 0, - 4.5], [0, 0, - 6], [0, 0, - 7.5], [0, 0, - 9],
          [0, 0, - 10.5], [0, 0, - 12], [0, 0, - 13.5]]"
proof -
  have e: "load_stepping example_solver 2 0
            = (fst (load_stepping example_solver 2 0), snd (load_stepping example_solver 2 0))"
    and s: "load_stepping steady_solver 2 0
            = (fst (load_stepping steady_solver 2 0), snd (load_stepping steady_solver 2 0))"
    by simp_all
  note E = C5_nine_load_steps[OF e] and S = C5_nine_load_steps[OF s]
  have le: "length (fst (load_stepping example_solver 2 0)) = 6"
    using E example_aborts by simp
  obtain g where "snd (load_stepping steady_solver 2 0) = Inr g"
    using steady_completes by blast
  then have ls: "length (fst (load_stepping steady_solver 2 0)) = 9"
    using S by simp
  have se: "map c_step (fst (load_stepping example_solver 2 0)) = [1..<Suc 6]"
    using E le by simp
  have ss: "map c_step (fst (load_stepping steady_solver 2 0)) = [1..<Suc 9]"
    using S ls by simp
  have ts: "\<forall>c\<in>set (fst (load_stepping steady_solver 2 0)).
              T_value (c_globals c) = [0, 0, real (c_step c) * (- (3 / 2))]"
    using S by blast
  have "map (T_value \<circ> c_globals) (fst (load_stepping steady_solver 2 0))
          = map (\<lambda>c. [0, 0, real (c_step c) * (- (3 / 2))]) (fst (load_stepping steady_solver 2 0))"
    using ts by (intro map_cong) simp_all
  also have "\<dots> = map (\<lambda>k. [0, 0, real k * (- (3 / 2))]) (map c_step (fst (load_stepping steady_solver 2 0)))"
    by (simp add: o_def)
  also have "\<dots> = [[0, 0, - 1.5], [0, 0, - 3], [0, 0, - 4.5], [0, 0, - 6], [0, 0, - 7.5], [0, 0, - 9],
          [0, 0, - 10.5], [0, 0, - 12], [0, 0, - 13.5]]"
    unfolding ss by (simp add: upt_conv_Cons)
  finally show ?thesis using se ss example_aborts by (simp add: upt_conv_Cons)
qed

section \<open>Properties of the Newton iteration under the boundary conditions\<close>

lemma newton_update_prescribed:
  assumes "k < length A" "k < length (A ! k)" "k < length b" "bc_value (bcs p) k = Some g"
    and "mat_vec (J_jacobian p x A) v = map uminus (F_residual p x b)"
  shows "x ! k + v ! k = g"
proof -
  have "F_residual p x b ! k = x ! k - g"
    using assms(3,4) by (rule F_residual_prescribed)
  moreover have "mat_vec (J_jacobian p x A) v ! k = - (F_residual p x b ! k)"
    using assms(3) by (simp add: assms(5) length_F_residual)
  moreover have "mat_vec (J_jacobian p x A) v ! k = v ! k"
    using assms(1,2,4) by (rule J_mat_vec_prescribed)
  ultimately show ?thesis by simp
qed

lemma newton_invariant:
  assumes lin: "\<forall>A r v. linear_solve lib A r = Some v \<longrightarrow> mat_vec A v = r"
  shows "length x = n \<Longrightarrow> length b = n \<Longrightarrow> map length A = replicate n n \<Longrightarrow>
         satisfies_bcs (bcs p) n x \<Longrightarrow>
         newton_iterate lib s p fuel its x b A = Inr (its', c, x', (b', A')) \<Longrightarrow>
         length x' = n \<and> length b' = n \<and> map length A' = replicate n n \<and> satisfies_bcs (bcs p) n x'"
proof (induction fuel arbitrary: its x b A)
  case 0
  then show ?case by simp
next
  case (Suc fuel)
  let ?R = "F_residual p x b" and ?J = "J_jacobian p x A"
  obtain dx where dx: "linear_solve lib ?J (map uminus ?R) = Some dx"
    using Suc.prems(5) by (cases "linear_solve lib ?J (map uminus ?R)") (simp_all add: Let_def)
  let ?x1 = "map (\<lambda>i. x ! i + dx ! i) [0..<length x]"
  have sol: "mat_vec ?J dx = map uminus ?R"
    using lin dx by blast
  have lenA: "length A = n"
    using Suc.prems(3) by (metis length_map length_replicate)
  have rowA: "length (A ! k) = n" if "k < n" for k
    using Suc.prems(3) that lenA by (metis nth_map nth_replicate)
  have l1: "length ?x1 = n" using Suc.prems(1) by simp
  have lR: "length ?R = n" using Suc.prems(2) by (simp add: length_F_residual)
  have sJ: "map length ?J = replicate n n" using Suc.prems(3) by (simp add: shape_J)
  have s1: "satisfies_bcs (bcs p) n ?x1"
    unfolding satisfies_bcs_def
  proof (intro allI impI)
    fix k g assume k: "k < n" and g: "bc_value (bcs p) k = Some g"
    have "x ! k + dx ! k = g"
      using newton_update_prescribed[of k A b p g x dx] k g sol lenA rowA Suc.prems(2) by simp
    then show "?x1 ! k = g" using k Suc.prems(1) by simp
  qed
  show ?case
  proof (cases "converged_test lib s dx ?x1 ?R")
    case True
    then have "Inr (its', c, x', (b', A')) = Inr (Suc its, True, ?x1, (?R, ?J))"
      using Suc.prems(5) dx by (simp add: Let_def)
    then show ?thesis using l1 lR sJ s1 by simp
  next
    case False
    then have "newton_iterate lib s p fuel (Suc its) ?x1 ?R ?J = Inr (its', c, x', (b', A'))"
      using Suc.prems(5) dx by (simp add: Let_def)
    from Suc.IH[OF l1 lR sJ s1 this] show ?thesis .
  qed
qed

lemma bc_value_bcs_of:
  "bc_value (bcs_of ubc dofs) k = (if k \<in> set dofs then Some (ubc ! k) else None)"
  by (simp add: bcs_of_def)

lemma bcs_problem_of: "bcs (problem_of fs dofs g) = bcs_of (u_bc_vector g) dofs"
  by (simp add: problem_of_def)

lemma satisfies_zero_bcs:
  "satisfies_bcs (bcs_of (replicate n 0) dofs) n x \<longleftrightarrow> vanishes_on dofs n x"
  by (auto simp: satisfies_bcs_def vanishes_on_def bc_value_bcs_of)

lemma newton_solve_zero_bcs:
  assumes lin: "\<forall>A r v. linear_solve lib A r = Some v \<longrightarrow> mat_vec A v = r"
    and g: "u_bc_vector g = replicate n 0" "length (u_vector g) = n" "vanishes_on dofs n (u_vector g)"
    and st: "length (fst st) = n" "map length (snd st) = replicate n n"
    and res: "newton_solve lib s fs dofs st g = Inr (its, c, u', st')"
  shows "length u' = n \<and> vanishes_on dofs n u' \<and> length (fst st') = n
       \<and> map length (snd st') = replicate n n"
proof -
  obtain b' A' where st': "st' = (b', A')" by (cases st')
  have sat: "satisfies_bcs (bcs (problem_of fs dofs g)) n (u_vector g)"
    using g(3) by (simp add: bcs_problem_of g(1) satisfies_zero_bcs)
  have "newton_iterate lib s (problem_of fs dofs g) (max_it s) 0 (u_vector g) (fst st) (snd st)
          = Inr (its, c, u', (b', A'))"
    using res by (simp add: newton_solve_def st')
  from newton_invariant[OF lin g(2) st(1) st(2) sat this]
  show ?thesis by (simp add: st' bcs_problem_of g(1) satisfies_zero_bcs)
qed

lemma load_steps_zero_bcs:
  assumes lin: "\<forall>A r v. linear_solve lib A r = Some v \<longrightarrow> mat_vec A v = r"
  shows "u_bc_vector g = replicate n 0 \<Longrightarrow> length (u_vector g) = n \<Longrightarrow>
         vanishes_on dofs n (u_vector g) \<Longrightarrow>
         length (fst st) = n \<Longrightarrow> map length (snd st) = replicate n n \<Longrightarrow>
         (\<forall>c\<in>set (fst (load_steps (newton_solve lib s fs dofs) ns g st)).
             u_bc_vector (c_globals c) = replicate n 0
             \<and> vanishes_on dofs n (u_vector (c_globals c))
             \<and> result_vanishes dofs n (c_result c))
         \<and> (\<forall>g'. snd (load_steps (newton_solve lib s fs dofs) ns g st) = Inr g' \<longrightarrow>
               u_bc_vector g' = replicate n 0 \<and> vanishes_on dofs n (u_vector g'))"
proof (induction ns arbitrary: g st)
  case Nil
  then show ?case by simp
next
  case (Cons m ns)
  let ?g1 = "g\<lparr>T_value := (T_value g)[2 := real m * tval0]\<rparr>"
  have g1: "u_bc_vector ?g1 = replicate n 0" "length (u_vector ?g1) = n"
    "vanishes_on dofs n (u_vector ?g1)"
    using Cons.prems by simp_all
  show ?case
  proof (cases "newton_solve lib s fs dofs st ?g1")
    case (Inl e)
    then show ?thesis
      unfolding load_steps_Cons using g1 by (simp add: result_vanishes_def)
  next
    case (Inr r)
    obtain its c u' st' where r: "r = (its, c, u', st')" by (cases r)
    have res: "newton_solve lib s fs dofs st ?g1 = Inr (its, c, u', st')"
      using Inr r by simp
    note nv = newton_solve_zero_bcs[OF lin g1 Cons.prems(4,5) res]
    show ?thesis
    proof (cases c)
      case False
      then show ?thesis
        unfolding load_steps_Cons using g1 nv res by (simp add: result_vanishes_def)
    next
      case True
      let ?g2 = "?g1\<lparr>u_vector := u'\<rparr>"
      have "u_bc_vector ?g2 = replicate n 0" "length (u_vector ?g2) = n"
        "vanishes_on dofs n (u_vector ?g2)" "length (fst st') = n"
        "map length (snd st') = replicate n n"
        using g1 nv by simp_all
      from Cons.IH[OF this] show ?thesis
        unfolding load_steps_Cons using g1 nv res True by (simp add: result_vanishes_def)
    qed
  qed
qed

lemma u_bc_zero: "u_bc n = replicate n 0"
  by (simp add: u_bc_def vec_set_def)

lemma set_left_dofs:
  "set (left_dofs fd msh) = (\<Union>f\<in>{f. on_left_face msh f}. set (fd f))"
  using tagged_left[of msh]
  by (simp add: left_dofs_def locate_dofs_topological_def left_facets_def set_locate left_def
      on_left_face_def)

lemma vanishes_on_left_dofs:
  "vanishes_on (left_dofs fd msh) n x \<longleftrightarrow> vanishes_on_left_face fd msh n x"
  unfolding vanishes_on_def vanishes_on_left_face_def set_left_dofs by blast

text \<open>
  C10. In every load step the boundary value function is zero and the boundary
  conditions handed to the solver are the same: the value zero on the constrained
  degrees of freedom, which are exactly the degrees of freedom of the boundary facets
  whose first coordinate is close to 0. With a linear solver that returns solutions of
  the systems it is given, every displacement the Newton solver starts from or returns,
  in particular every converged one and the final one, vanishes on the degrees of
  freedom of these facets.
\<close>

theorem C10_dirichlet_values_stay_zero:
  assumes "\<forall>A r v. linear_solve lib A r = Some v \<longrightarrow> mat_vec A v = r"
    and "length b0 = n" "map length A0 = replicate n n"
    and "load_stepping (newton_solve lib s fs (left_dofs fd msh)) n (b0, A0) = (calls, out)"
  shows "set (left_dofs fd msh) = (\<Union>f\<in>{f. on_left_face msh f}. set (fd f))
       \<and> (\<forall>c\<in>set calls.
            u_bc_vector (c_globals c) = replicate n 0
            \<and> bcs (problem_of fs (left_dofs fd msh) (c_globals c))
                = bcs_of (replicate n 0) (left_dofs fd msh)
            \<and> (\<forall>f. on_left_face msh f \<longrightarrow> (\<forall>k\<in>set (fd f). k < n \<longrightarrow>
                  bc_value (bcs (problem_of fs (left_dofs fd msh) (c_globals c))) k = Some 0))
            \<and> vanishes_on_left_face fd msh n (u_vector (c_globals c))
            \<and> (\<forall>num_its cv u' st'. c_result c = Inr (num_its, cv, u', st') \<longrightarrow>
                  vanishes_on_left_face fd msh n u'))
       \<and> (\<forall>g. out = Inr g \<longrightarrow>
             u_bc_vector g = replicate n 0 \<and> vanishes_on_left_face fd msh n (u_vector g))"
proof -
  let ?g = "initial_globals n" and ?d = "left_dofs fd msh"
  have i: "u_bc_vector ?g = replicate n 0" "length (u_vector ?g) = n"
    "vanishes_on ?d n (u_vector ?g)" "length (fst (b0, A0)) = n"
    "map length (snd (b0, A0)) = replicate n n"
    using assms(2,3) by (simp_all add: initial_globals_def u_bc_zero vanishes_on_def)
  have r: "calls = fst (load_steps (newton_solve lib s fs ?d) [1..<10] ?g (b0, A0))"
    "out = snd (load_steps (newton_solve lib s fs ?d) [1..<10] ?g (b0, A0))"
    using assms(4) by (simp_all add: load_stepping_def)
  note inv = load_steps_zero_bcs[OF assms(1) i, of s fs "[1..<10]", folded r]
  have dofs: "k \<in> set ?d" if "on_left_face msh f" "k \<in> set (fd f)" for f k
    using that unfolding set_left_dofs by blast
  have c: "u_bc_vector (c_globals c) = replicate n 0
        \<and> bcs (problem_of fs ?d (c_globals c)) = bcs_of (replicate n 0) ?d
        \<and> (\<forall>f. on_left_face msh f \<longrightarrow> (\<forall>k\<in>set (fd f). k < n \<longrightarrow>
              bc_value (bcs (problem_of fs ?d (c_globals c))) k = Some 0))
        \<and> vanishes_on_left_face fd msh n (u_vector (c_globals c))
        \<and> (\<forall>num_its cv u' st'. c_result c = Inr (num_its, cv, u', st') \<longrightarrow>
              vanishes_on_left_face fd msh n u')"
    if "c \<in> set calls" for c
  proof -
    have a: "u_bc_vector (c_globals c) = replicate n 0"
      "vanishes_on ?d n (u_vector (c_globals c))" "result_vanishes ?d n (c_result c)"
      using inv that by blast+
    have "vanishes_on_left_face fd msh n u'" if "c_result c = Inr (num_its, cv, u', st')"
      for num_its cv u' st'
      using a(3) that by (simp add: result_vanishes_def vanishes_on_left_dofs)
    moreover have "bc_value (bcs (problem_of fs ?d (c_globals c))) k = Some 0"
      if "on_left_face msh f" "k \<in> set (fd f)" "k < n" for f k
      using dofs[OF that(1,2)] that(3) by (simp add: bcs_problem_of bc_value_bcs_of a(1))
    ultimately show ?thesis
      using a by (simp add: bcs_problem_of vanishes_on_left_dofs)
  qed
  have o: "u_bc_vector g = replicate n 0 \<and> vanishes_on_left_face fd msh n (u_vector g)"
    if "out = Inr g" for g
    using inv that by (simp add: vanishes_on_left_dofs)
  show ?thesis using set_left_dofs c o by blast
qed

lemma example_left_dofs: "left_dofs example_facet_dofs example_mesh = [0]"
  by code_simp

lemma example_run_out:
  "snd example_run = Inr \<lparr>T_value = [0, 0, - 13.5], u_vector = [0, - 13.5], u_bc_vector = [0, 0]\<rparr>"
  by (simp add: example_run_def load_stepping_def upt_1_10 example_left_dofs tval0_def
      newton_solve_def solver_options_def example_library_def example_forms_def
      initial_globals_def u_bc_def vec_set_def problem_of_def bcs_of_def numeral_2_eq_2 Let_def
      F_residual_def J_jacobian_def assemble_vector_def apply_lifting_def lifting_row_def
      ghostUpdate_def set_bc_def set_bc_one_def zeroEntries_def assemble_matrix_def mat_assemble_def
      mat_vec_def upt_conv_Cons)

text \<open>Without the condition the degree of freedom 0 follows the load.\<close>

lemma unconstrained_run_out:
  "snd unconstrained_run
     = Inr \<lparr>T_value = [0, 0, - 13.5], u_vector = [- 13.5, - 13.5], u_bc_vector = [0, 0]\<rparr>"
  by (simp add: unconstrained_run_def load_stepping_def upt_1_10 tval0_def
      newton_solve_def solver_options_def example_library_def example_forms_def
      initial_globals_def u_bc_def vec_set_def problem_of_def bcs_of_def numeral_2_eq_2 Let_def
      F_residual_def J_jacobian_def assemble_vector_def apply_lifting_def lifting_row_def
      ghostUpdate_def set_bc_def set_bc_one_def zeroEntries_def assemble_matrix_def mat_assemble_def
      mat_vec_def upt_conv_Cons)

lemma steps_nonempty: "fst (load_steps solve (n # ns) g st) \<noteq> []"
  unfolding load_steps_Cons by (simp split: sum.split prod.split)

lemma example_left_face: "on_left_face example_mesh 0"
  by (simp add: on_left_face_def example_mesh_def np_isclose_def)

theorem C10_dirichlet_values_stay_zero_witness:
  "length [5, 5::real] = 2 \<and> map length [[5, 5], [5, 5::real]] = replicate 2 2
   \<and> on_left_face example_mesh 0 \<and> example_facet_dofs 0 = [0]
   \<and> left_dofs example_facet_dofs example_mesh = [0]
   \<and> snd example_run
       = Inr \<lparr>T_value = [0, 0, - 13.5], u_vector = [0, - 13.5], u_bc_vector = [0, 0]\<rparr>
   \<and> snd unconstrained_run
       = Inr \<lparr>T_value = [0, 0, - 13.5], u_vector = [- 13.5, - 13.5], u_bc_vector = [0, 0]\<rparr>
   \<and> fst example_run \<noteq> []
   \<and> u_bc_vector (c_globals (hd (fst example_run))) = [0, 0]
   \<and> u_vector (c_globals (last (fst example_run))) ! 0 = 0
   \<and> (case snd example_run of Inr g \<Rightarrow> u_vector g ! 0 = 0 | Inl e \<Rightarrow> False)"
proof -
  have lin: "\<forall>A r v. linear_solve example_library A r = Some v \<longrightarrow> mat_vec A v = r"
    by (simp add: example_library_def)
  have buf: "length [5, 5::real] = 2" "map length [[5, 5], [5, 5::real]] = replicate 2 2"
    by (simp_all add: numeral_2_eq_2)
  have run: "load_stepping
       (newton_solve example_library (solver_options 2) example_forms
          (left_dofs example_facet_dofs example_mesh))
       2 ([5, 5], [[5, 5], [5, 5]]) = (fst example_run, snd example_run)"
    by (simp add: example_run_def)
  note T = C10_dirichlet_values_stay_zero[OF lin buf run]
  have z: "replicate 2 (0::real) = [0, 0]"
    by (simp add: numeral_2_eq_2)
  have d: "(0::nat) \<in> set (example_facet_dofs 0)" "(0::nat) < 2" "example_facet_dofs 0 = [0]"
    by (simp_all add: example_facet_dofs_def)
  have c: "fst example_run \<noteq> []"
    by (simp add: example_run_def load_stepping_def upt_1_10 steps_nonempty del: load_steps.simps)
  then have m: "hd (fst example_run) \<in> set (fst example_run)"
    "last (fst example_run) \<in> set (fst example_run)"
    by simp_all
  have a: "u_bc_vector (c_globals (hd (fst example_run))) = [0, 0]"
    using T m(1) by (simp add: z)
  have "vanishes_on_left_face example_facet_dofs example_mesh 2
          (u_vector (c_globals (last (fst example_run))))"
    using T m(2) by blast
  then have l: "u_vector (c_globals (last (fst example_run))) ! 0 = 0"
    using example_left_face d(1,2) unfolding vanishes_on_left_face_def by blast
  have "vanishes_on_left_face example_facet_dofs example_mesh 2 [0, - 13.5]"
    using T example_run_out by simp
  then have b: "(case snd example_run of Inr g \<Rightarrow> u_vector g ! 0 = 0 | Inl e \<Rightarrow> False)"
    by (simp add: example_run_out)
  show ?thesis
    using buf a b c l d(3) example_left_face example_left_dofs example_run_out
      unconstrained_run_out
    by simp
qed

end
